theory Spec2Isabelle
  imports Main "HOL-Library.Word"
begin

section \<open>Key status warnings of fluidkeys (package status)\<close>

text \<open>
  A shallow embedding of \<^verbatim>\<open>src/status/status.go\<close>. The functions of that file keep
  their names. What the file takes from Go's standard library (package \<^verbatim>\<open>time\<close>,
  \<^verbatim>\<open>sort.Sort\<close>) and from the OpenPGP packages (the structs it reads) is modelled in
  the first two subsections.
\<close>

subsection \<open>Go's time package\<close>

text \<open>
  A \<^verbatim>\<open>time.Time\<close> is an instant together with a location. Instants are whole seconds
  since the Unix epoch: OpenPGP creation times and key lifetimes are whole seconds, and the
  clock reading is taken at the same resolution. A location is a fixed offset in seconds
  east of UTC (a zone whose offset changes over the year is outside the model);
  \<^verbatim>\<open>time.UTC\<close> is offset 0. A \<^verbatim>\<open>time.Duration\<close> is a number of seconds.
  (Go counts nanoseconds in an int64; the largest duration the code builds from a lifetime is
  \<open>(2^32 - 1) * 10^9\<close> nanoseconds, which is below \<open>2^63\<close>.)
\<close>

record Time =
  unix :: int
  zone :: int

type_synonym Duration = int

definition UTC :: int where
  "UTC = 0"

definition time_Add :: "Time \<Rightarrow> Duration \<Rightarrow> Time" where
  "time_Add t d = t\<lparr>unix := unix t + d\<rparr>"

definition time_Sub :: "Time \<Rightarrow> Time \<Rightarrow> Duration" where
  "time_Sub t u = unix t - unix u"

definition time_Before :: "Time \<Rightarrow> Time \<Rightarrow> bool" where
  "time_Before t u = (unix t < unix u)"

definition time_After :: "Time \<Rightarrow> Time \<Rightarrow> bool" where
  "time_After t u = (unix t > unix u)"

definition time_In :: "Time \<Rightarrow> int \<Rightarrow> Time" where
  "time_In t l = t\<lparr>zone := l\<rparr>"

text \<open>The zero value of \<^verbatim>\<open>time.Time\<close>: January 1, year 1, 00:00 UTC.\<close>

definition zeroTime :: Time where
  "zeroTime = \<lparr>unix = - 62135596800, zone = 0\<rparr>"

text \<open>
  The calendar, as \<^verbatim>\<open>time.absDate\<close> and \<^verbatim>\<open>time.Date\<close> compute it. Days are counted
  from January 1 of year 1 (Go shifts this count by a multiple of 400 years to keep it
  unsigned; with integers and flooring division that shift is not needed).
\<close>

definition secondsPerDay :: int where
  "secondsPerDay = 86400"

definition daysPer400Years :: int where
  "daysPer400Years = 365 * 400 + 97"

definition daysPer100Years :: int where
  "daysPer100Years = 365 * 100 + 24"

definition daysPer4Years :: int where
  "daysPer4Years = 365 * 4 + 1"

text \<open>Days from January 1 of year 1 to January 1, 1970.\<close>

definition unixToInternalDays :: int where
  "unixToInternalDays = 1969 * 365 + 1969 div 4 - 1969 div 100 + 1969 div 400"

definition isLeap :: "int \<Rightarrow> bool" where
  "isLeap year = (year mod 4 = 0 \<and> (year mod 100 \<noteq> 0 \<or> year mod 400 = 0))"

text \<open>\<^verbatim>\<open>daysBefore[m]\<close>: the days of a non-leap year before month \<open>m + 1\<close>.\<close>

definition daysBefore :: "int \<Rightarrow> int" where
  "daysBefore m =
     (if m = 0 then 0
      else if m = 1 then 31
      else if m = 2 then 31 + 28
      else if m = 3 then 31 + 28 + 31
      else if m = 4 then 31 + 28 + 31 + 30
      else if m = 5 then 31 + 28 + 31 + 30 + 31
      else if m = 6 then 31 + 28 + 31 + 30 + 31 + 30
      else if m = 7 then 31 + 28 + 31 + 30 + 31 + 30 + 31
      else if m = 8 then 31 + 28 + 31 + 30 + 31 + 30 + 31 + 31
      else if m = 9 then 31 + 28 + 31 + 30 + 31 + 30 + 31 + 31 + 30
      else if m = 10 then 31 + 28 + 31 + 30 + 31 + 30 + 31 + 31 + 30 + 31
      else if m = 11 then 31 + 28 + 31 + 30 + 31 + 30 + 31 + 31 + 30 + 31 + 30
      else 31 + 28 + 31 + 30 + 31 + 30 + 31 + 31 + 30 + 31 + 30 + 31)"

text \<open>\<^verbatim>\<open>daysIn(m, year)\<close>: the number of days of month \<open>m\<close> (January is 1).\<close>

definition daysIn :: "int \<Rightarrow> int \<Rightarrow> int" where
  "daysIn m year =
     (if m = 2 \<and> isLeap year then 29 else daysBefore m - daysBefore (m - 1))"

text \<open>
  The first half of \<^verbatim>\<open>absDate\<close>: the year of a day and the day within that year
  (from 0). \<open>n - n div 4\<close> is Go's \<^verbatim>\<open>n -= n >> 2\<close>.
\<close>

definition absYear :: "int \<Rightarrow> int \<times> int" where
  "absYear days =
     (let d = days;
          n = d div daysPer400Years;
          y = 400 * n;
          d = d - daysPer400Years * n;
          n = d div daysPer100Years;
          n = n - n div 4;
          y = y + 100 * n;
          d = d - daysPer100Years * n;
          n = d div daysPer4Years;
          y = y + 4 * n;
          d = d - daysPer4Years * n;
          n = d div 365;
          n = n - n div 4;
          y = y + n;
          d = d - 365 * n
      in (y + 1, d))"

text \<open>The second half of \<^verbatim>\<open>absDate\<close>: month (January is 1) and day of the month.\<close>

definition yearDayToMonthDay :: "int \<Rightarrow> int \<Rightarrow> int \<times> int" where
  "yearDayToMonthDay year yday =
     (if isLeap year \<and> yday = 31 + 29 - 1 then (2, 29)
      else
        let day = (if isLeap year \<and> yday > 31 + 29 - 1 then yday - 1 else yday);
            month = day div 31;
            end = daysBefore (month + 1)
        in if day \<ge> end then (month + 1 + 1, day - end + 1)
           else (month + 1, day - daysBefore month + 1))"

definition absDate :: "int \<Rightarrow> int \<times> int \<times> int" where
  "absDate days =
     (let (year, yday) = absYear days;
          (month, day) = yearDayToMonthDay year yday
      in (year, month, day))"

text \<open>\<^verbatim>\<open>t.Date()\<close>: year, month and day of \<open>t\<close> in the location of \<open>t\<close>.\<close>

definition time_DateOf :: "Time \<Rightarrow> int \<times> int \<times> int" where
  "time_DateOf t = absDate ((unix t + zone t) div secondsPerDay + unixToInternalDays)"

text \<open>
  The day count that \<^verbatim>\<open>time.Date\<close> computes for a year, a month in 1..12 and a day
  (months outside 1..12, which Go normalises first, do not occur: the code passes the
  month of \<^verbatim>\<open>t.Date()\<close>).
\<close>

definition daysSinceYear1 :: "int \<Rightarrow> int \<Rightarrow> int \<Rightarrow> int" where
  "daysSinceYear1 year month day =
     (let y = year - 1;
          n = y div 400;
          y = y - 400 * n;
          d = daysPer400Years * n;
          n = y div 100;
          y = y - 100 * n;
          d = d + daysPer100Years * n;
          n = y div 4;
          y = y - 4 * n;
          d = d + daysPer4Years * n;
          n = y;
          d = d + 365 * n;
          d = d + daysBefore (month - 1);
          d = (if isLeap year \<and> month \<ge> 3 then d + 1 else d);
          d = d + (day - 1)
      in d)"

text \<open>\<^verbatim>\<open>time.Date(year, month, day, 0, 0, 0, 0, loc)\<close>.\<close>

definition time_Date :: "int \<Rightarrow> int \<Rightarrow> int \<Rightarrow> int \<Rightarrow> Time" where
  "time_Date year month day loc =
     \<lparr>unix = (daysSinceYear1 year month day - unixToInternalDays) * secondsPerDay - loc,
      zone = loc\<rparr>"

subsection \<open>Go's sort package\<close>

text \<open>
  \<^verbatim>\<open>sort.Sort\<close> reorders a slice in place by swaps until \<^verbatim>\<open>Less\<close> orders it. It is not
  stable: among elements that \<^verbatim>\<open>Less\<close> does not separate, the library decides the order.
  The model is the insertion sort that \<^verbatim>\<open>sort.Sort\<close> runs on a short slice: each element
  in turn moves left while it is \<^verbatim>\<open>Less\<close> than its left neighbour. \<open>insertLeft\<close> takes
  the sorted prefix in reverse, its last element first. What is proved below about the
  element that ends up first rests on lemma \<open>sort_Sort_first\<close> alone, which holds of every
  sort that returns an ordered permutation.
\<close>

fun insertLeft :: "('a \<Rightarrow> 'a \<Rightarrow> bool) \<Rightarrow> 'a \<Rightarrow> 'a list \<Rightarrow> 'a list" where
  "insertLeft lt x [] = [x]"
| "insertLeft lt x (p # ps) = (if lt x p then p # insertLeft lt x ps else x # p # ps)"

definition sort_Sort :: "('a \<Rightarrow> 'a \<Rightarrow> bool) \<Rightarrow> 'a list \<Rightarrow> 'a list" where
  "sort_Sort lt data = rev (foldl (\<lambda>prefix x. insertLeft lt x prefix) [] data)"

text \<open>\<^verbatim>\<open>sort.Reverse\<close>: the same data with \<^verbatim>\<open>Less\<close> swapped.\<close>

definition sort_Reverse :: "('a \<Rightarrow> 'a \<Rightarrow> bool) \<Rightarrow> 'a \<Rightarrow> 'a \<Rightarrow> bool" where
  "sort_Reverse lt i j = lt j i"

subsection \<open>The OpenPGP structures\<close>

text \<open>
  The fields that the status package reads of \<^verbatim>\<open>packet.PublicKey\<close>,
  \<^verbatim>\<open>packet.Signature\<close>, \<^verbatim>\<open>openpgp.Subkey\<close>, \<^verbatim>\<open>openpgp.Identity\<close> and
  \<^verbatim>\<open>pgpkey.PgpKey\<close>. \<^verbatim>\<open>KeyLifetimeSecs\<close> is a \<^verbatim>\<open>*uint32\<close>: \<open>None\<close> is nil.
  \<^verbatim>\<open>Identities\<close> is a Go map; the list holds its values in the order the loop visits them.
\<close>

record packet_PublicKey =
  CreationTime :: Time
  KeyId :: "64 word"

record packet_Signature =
  KeyLifetimeSecs :: "32 word option"
  FlagsValid :: bool
  FlagEncryptCommunications :: bool
  FlagEncryptStorage :: bool

record openpgp_Subkey =
  PublicKey :: packet_PublicKey
  Sig :: packet_Signature

record openpgp_Identity =
  SelfSignature :: packet_Signature

record PgpKey =
  PrimaryKey :: packet_PublicKey
  Identities :: "openpgp_Identity list"
  Subkeys :: "openpgp_Subkey list"

subsection \<open>Warnings\<close>

text \<open>
  Modelled from the spec: the struct \<^verbatim>\<open>KeyWarning\<close> and the constants of its \<^verbatim>\<open>Type\<close>
  are declared in a file of package status that is not among the sources. The kinds are
  those that \<^verbatim>\<open>status.go\<close> emits and the spec lists; the fields are those that
  \<^verbatim>\<open>status.go\<close> sets. A field that a composite literal leaves out is zero.
\<close>

datatype WarningType =
    PrimaryKeyDueForRotation
  | PrimaryKeyOverdueForRotation
  | PrimaryKeyExpired
  | PrimaryKeyNoExpiry
  | PrimaryKeyLongExpiry
  | SubkeyDueForRotation
  | SubkeyOverdueForRotation
  | SubkeyNoExpiry
  | SubkeyLongExpiry
  | NoValidEncryptionSubkey

record KeyWarning =
  Type :: WarningType
  SubkeyId :: "64 word"
  DaysUntilExpiry :: nat
  DaysSinceExpiry :: nat

text \<open>The panics of the package, and the nil dereference that Go would raise.\<close>

datatype panic =
    ExpiryHasAlreadyPassed
  | ExpiryIsInTheFuture
  | EarliestCalledWithEmptySlice
  | NilPointerDereference

subsection \<open>Rotation policy\<close>

definition tenDays :: Duration where
  "tenDays = 60 * 60 * 24 * 10"

definition thirtyDays :: Duration where
  "thirtyDays = 60 * 60 * 24 * 30"

definition fortyFiveDays :: Duration where
  "fortyFiveDays = 60 * 60 * 24 * 45"

definition calculateNextRotationTime :: "Time \<Rightarrow> Time" where
  "calculateNextRotationTime expiry = time_Add expiry (- thirtyDays)"

definition beginningOfMonth :: "Time \<Rightarrow> Time" where
  "beginningOfMonth now =
     (case time_DateOf now of (y, m, _) \<Rightarrow> time_In (time_Date y m 1 (zone now)) UTC)"

definition firstOfNextMonth :: "Time \<Rightarrow> Time" where
  "firstOfNextMonth today =
     (let firstOfThisMonth = beginningOfMonth today
      in beginningOfMonth (time_Add firstOfThisMonth fortyFiveDays))"

definition nextExpiryTime :: "Time \<Rightarrow> Time" where
  "nextExpiryTime now = time_In (time_Add (firstOfNextMonth now) thirtyDays) UTC"

definition isExpiryTooLong :: "Time \<Rightarrow> Time \<Rightarrow> bool" where
  "isExpiryTooLong expiry now =
     (let latestAcceptableExpiry = nextExpiryTime now
      in time_After expiry latestAcceptableExpiry)"

definition isExpired :: "Time \<Rightarrow> Time \<Rightarrow> bool" where
  "isExpired expiry now = time_Before expiry now"

definition isOverdueForRotation :: "Time \<Rightarrow> Time \<Rightarrow> bool" where
  "isOverdueForRotation nextRotation now =
     (let overdueTime = time_Add nextRotation tenDays
      in time_Before overdueTime now)"

definition isDueForRotation :: "Time \<Rightarrow> Time \<Rightarrow> bool" where
  "isDueForRotation nextRotation now = time_Before nextRotation now"

text \<open>
  \<^verbatim>\<open>int(duration.Seconds() / 86400)\<close>: the quotient is a float64 and the conversion to
  \<^verbatim>\<open>int\<close> drops its fraction, so the result is rounded towards zero. On a whole number
  of seconds (below \<open>2^53\<close>) the float64 quotient is exact enough for this to be the
  integer quotient rounded towards zero.
\<close>

definition inDays :: "Duration \<Rightarrow> int" where
  "inDays duration = sgn duration * (\<bar>duration\<bar> div 86400)"

definition getDaysUntilExpiry :: "Time \<Rightarrow> Time \<Rightarrow> panic + nat" where
  "getDaysUntilExpiry expiry now =
     (let days = inDays (time_Sub expiry now)
      in if days < 0 then Inl ExpiryHasAlreadyPassed else Inr (nat days))"

definition getDaysSinceExpiry :: "Time \<Rightarrow> Time \<Rightarrow> panic + nat" where
  "getDaysSinceExpiry expiry now =
     (let days = inDays (time_Sub now expiry)
      in if days < 0 then Inl ExpiryIsInTheFuture else Inr (nat days))"

subsection \<open>Expiry of identities and subkeys\<close>

text \<open>
  The Go functions return \<^verbatim>\<open>(bool, *time.Time)\<close>; the pointer is an option, nil is
  \<open>None\<close>. \<^verbatim>\<open>time.Duration(*lifetimeSecs) * time.Second\<close> is the lifetime in seconds.
\<close>

definition calculateExpiry :: "Time \<Rightarrow> 32 word option \<Rightarrow> bool \<times> Time option" where
  "calculateExpiry creationTime lifetimeSecs =
     (case lifetimeSecs of
        None \<Rightarrow> (False, None)
      | Some secs \<Rightarrow>
          if secs = 0 then (False, None)
          else (True, Some (time_In (time_Add creationTime (uint secs)) UTC)))"

definition getSubkeyExpiry :: "openpgp_Subkey \<Rightarrow> bool \<times> Time option" where
  "getSubkeyExpiry subkey =
     calculateExpiry (CreationTime (PublicKey subkey)) (KeyLifetimeSecs (Sig subkey))"

text \<open>The loop of \<^verbatim>\<open>earliest\<close>, with its two variables.\<close>

fun earliestLoop :: "Time list \<Rightarrow> bool \<Rightarrow> Time \<Rightarrow> Time" where
  "earliestLoop [] isSet earliestSoFar = earliestSoFar"
| "earliestLoop (t # ts) isSet earliestSoFar =
     (if \<not> isSet \<or> time_Before t earliestSoFar then earliestLoop ts True t
      else earliestLoop ts isSet earliestSoFar)"

definition earliest :: "Time list \<Rightarrow> panic + Time" where
  "earliest ts =
     (if length ts = 0 then Inl EarliestCalledWithEmptySlice
      else Inr (earliestLoop ts False zeroTime))"

text \<open>The loop of \<^verbatim>\<open>getEarliestUidExpiry\<close> over the identities.\<close>

fun uidExpiryTimes :: "Time \<Rightarrow> openpgp_Identity list \<Rightarrow> panic + Time list" where
  "uidExpiryTimes creationTime [] = Inr []"
| "uidExpiryTimes creationTime (uid # ids) =
     (case calculateExpiry creationTime (KeyLifetimeSecs (SelfSignature uid)) of
        (hasExpiry, expiryTime) \<Rightarrow>
          if hasExpiry then
            (case expiryTime of
               None \<Rightarrow> Inl NilPointerDereference
             | Some t \<Rightarrow>
                 (case uidExpiryTimes creationTime ids of
                    Inl e \<Rightarrow> Inl e
                  | Inr rest \<Rightarrow> Inr (t # rest)))
          else uidExpiryTimes creationTime ids)"

definition getEarliestUidExpiry :: "PgpKey \<Rightarrow> panic + bool \<times> Time option" where
  "getEarliestUidExpiry key =
     (case uidExpiryTimes (CreationTime (PrimaryKey key)) (Identities key) of
        Inl e \<Rightarrow> Inl e
      | Inr allExpiryTimes \<Rightarrow>
          if length allExpiryTimes > 0 then
            (case earliest allExpiryTimes of
               Inl e \<Rightarrow> Inl e
             | Inr earliestExpiry \<Rightarrow> Inr (True, Some earliestExpiry))
          else Inr (False, None))"

subsection \<open>The most recent encryption subkey\<close>

definition ByCreated_Less :: "openpgp_Subkey \<Rightarrow> openpgp_Subkey \<Rightarrow> bool" where
  "ByCreated_Less i j =
     (let iTime = CreationTime (PublicKey i);
          jTime = CreationTime (PublicKey j)
      in time_Before iTime jTime)"

definition getMostRecentEncryptionSubkey :: "PgpKey \<Rightarrow> openpgp_Subkey option" where
  "getMostRecentEncryptionSubkey key =
     (let subkeys =
            filter (\<lambda>subkey.
                let hasEncryptionFlag =
                      FlagEncryptCommunications (Sig subkey) \<or> FlagEncryptStorage (Sig subkey)
                in FlagsValid (Sig subkey) \<and> hasEncryptionFlag)
              (Subkeys key)
      in if length subkeys = 0 then None
         else Some (sort_Sort (sort_Reverse ByCreated_Less) subkeys ! 0))"

subsection \<open>The evaluators\<close>

text \<open>
  Each evaluator reads the clock itself (\<^verbatim>\<open>now := time.Now()\<close>); the reading is the first
  argument. A panic inside an evaluator ends it: the result is \<open>Inl\<close> of the panic.
\<close>

definition getEncryptionSubkeyWarnings :: "Time \<Rightarrow> PgpKey \<Rightarrow> panic + KeyWarning list" where
  "getEncryptionSubkeyWarnings now key =
     (case getMostRecentEncryptionSubkey key of
        None \<Rightarrow>
          Inr [\<lparr>Type = NoValidEncryptionSubkey, SubkeyId = 0,
                DaysUntilExpiry = 0, DaysSinceExpiry = 0\<rparr>]
      | Some encryptionSubkey \<Rightarrow>
          let subkeyId = KeyId (PublicKey encryptionSubkey)
          in (case getSubkeyExpiry encryptionSubkey of
               (hasExpiry, expiry) \<Rightarrow>
                 if hasExpiry then
                   (case expiry of
                      None \<Rightarrow> Inl NilPointerDereference
                    | Some expiry \<Rightarrow>
                        let nextRotation = calculateNextRotationTime expiry
                        in (case
                             (if isExpired expiry now then
                                Inr [\<lparr>Type = NoValidEncryptionSubkey, SubkeyId = 0,
                                      DaysUntilExpiry = 0, DaysSinceExpiry = 0\<rparr>]
                              else if isOverdueForRotation nextRotation now then
                                (case getDaysUntilExpiry nextRotation now of
                                   Inl e \<Rightarrow> Inl e
                                 | Inr days \<Rightarrow>
                                     Inr [\<lparr>Type = SubkeyOverdueForRotation, SubkeyId = subkeyId,
                                           DaysUntilExpiry = days, DaysSinceExpiry = 0\<rparr>])
                              else if isDueForRotation nextRotation now then
                                Inr [\<lparr>Type = SubkeyDueForRotation, SubkeyId = subkeyId,
                                      DaysUntilExpiry = 0, DaysSinceExpiry = 0\<rparr>]
                              else Inr [])
                           of
                             Inl e \<Rightarrow> Inl e
                           | Inr warnings \<Rightarrow>
                               if isExpiryTooLong expiry now then
                                 Inr (warnings @
                                   [\<lparr>Type = SubkeyLongExpiry, SubkeyId = subkeyId,
                                     DaysUntilExpiry = 0, DaysSinceExpiry = 0\<rparr>])
                               else Inr warnings))
                 else
                   Inr [\<lparr>Type = SubkeyNoExpiry, SubkeyId = subkeyId,
                         DaysUntilExpiry = 0, DaysSinceExpiry = 0\<rparr>]))"

definition getPrimaryKeyWarnings :: "Time \<Rightarrow> PgpKey \<Rightarrow> panic + KeyWarning list" where
  "getPrimaryKeyWarnings now key =
     (case getEarliestUidExpiry key of
        Inl e \<Rightarrow> Inl e
      | Inr (hasExpiry, expiry) \<Rightarrow>
          if hasExpiry then
            (case expiry of
               None \<Rightarrow> Inl NilPointerDereference
             | Some expiry \<Rightarrow>
                 let nextRotation = calculateNextRotationTime expiry
                 in (case
                      (if isExpired expiry now then
                         (case getDaysSinceExpiry expiry now of
                            Inl e \<Rightarrow> Inl e
                          | Inr days \<Rightarrow>
                              Inr [\<lparr>Type = PrimaryKeyExpired, SubkeyId = 0,
                                    DaysUntilExpiry = 0, DaysSinceExpiry = days\<rparr>])
                       else if isOverdueForRotation nextRotation now then
                         (case getDaysUntilExpiry expiry now of
                            Inl e \<Rightarrow> Inl e
                          | Inr days \<Rightarrow>
                              Inr [\<lparr>Type = PrimaryKeyOverdueForRotation, SubkeyId = 0,
                                    DaysUntilExpiry = days, DaysSinceExpiry = 0\<rparr>])
                       else if isDueForRotation nextRotation now then
                         Inr [\<lparr>Type = PrimaryKeyDueForRotation, SubkeyId = 0,
                               DaysUntilExpiry = 0, DaysSinceExpiry = 0\<rparr>]
                       else Inr [])
                    of
                      Inl e \<Rightarrow> Inl e
                    | Inr warnings \<Rightarrow>
                        if isExpiryTooLong expiry now then
                          Inr (warnings @
                            [\<lparr>Type = PrimaryKeyLongExpiry, SubkeyId = 0,
                              DaysUntilExpiry = 0, DaysSinceExpiry = 0\<rparr>])
                        else Inr warnings))
          else
            Inr [\<lparr>Type = PrimaryKeyNoExpiry, SubkeyId = 0,
                  DaysUntilExpiry = 0, DaysSinceExpiry = 0\<rparr>])"

text \<open>
  \<^verbatim>\<open>GetKeyWarnings\<close> calls the two evaluators in turn; \<open>now1\<close> is the clock reading of
  the first and \<open>now2\<close> that of the second.
\<close>

definition GetKeyWarnings :: "Time \<Rightarrow> Time \<Rightarrow> PgpKey \<Rightarrow> panic + KeyWarning list" where
  "GetKeyWarnings now1 now2 key =
     (case getPrimaryKeyWarnings now1 key of
        Inl e \<Rightarrow> Inl e
      | Inr primaryKeyWarnings \<Rightarrow>
          (case getEncryptionSubkeyWarnings now2 key of
             Inl e \<Rightarrow> Inl e
           | Inr subkeyWarnings \<Rightarrow> Inr ([] @ primaryKeyWarnings @ subkeyWarnings)))"

subsection \<open>Example keys\<close>

text \<open>Keys and times for the concrete instances below; \<open>atUTC\<close> is an instant in UTC.\<close>

definition atUTC :: "int \<Rightarrow> Time" where
  "atUTC seconds = \<lparr>unix = seconds, zone = 0\<rparr>"

definition exampleSubkey :: "int \<Rightarrow> 64 word \<Rightarrow> 32 word option \<Rightarrow> openpgp_Subkey" where
  "exampleSubkey created keyId lifetime =
     \<lparr>PublicKey = \<lparr>CreationTime = atUTC created, KeyId = keyId\<rparr>,
      Sig = \<lparr>KeyLifetimeSecs = lifetime, FlagsValid = True,
             FlagEncryptCommunications = True, FlagEncryptStorage = False\<rparr>\<rparr>"

definition exampleIdentity :: "32 word option \<Rightarrow> openpgp_Identity" where
  "exampleIdentity lifetime =
     \<lparr>SelfSignature = \<lparr>KeyLifetimeSecs = lifetime, FlagsValid = True,
                       FlagEncryptCommunications = False, FlagEncryptStorage = False\<rparr>\<rparr>"

definition exampleKey :: "int \<Rightarrow> 32 word option list \<Rightarrow> openpgp_Subkey list \<Rightarrow> PgpKey" where
  "exampleKey created lifetimes subkeys =
     \<lparr>PrimaryKey = \<lparr>CreationTime = atUTC created, KeyId = 1\<rparr>,
      Identities = map exampleIdentity lifetimes,
      Subkeys = subkeys\<rparr>"

section \<open>Properties\<close>

subsection \<open>The expiry resolver\<close>

text \<open>
  C8. \<^verbatim>\<open>calculateExpiry\<close> with a nil or zero lifetime reports no expiry, whatever the
  creation time. With a positive lifetime \<open>L\<close> it reports an expiry whose instant is the
  creation time plus \<open>L\<close> seconds and whose location is UTC. The function returns a plain
  pair: it has no panic among its results.
\<close>

theorem C8_calculateExpiry:
  "calculateExpiry creationTime None = (False, None)
   \<and> calculateExpiry creationTime (Some 0) = (False, None)
   \<and> (0 < L \<longrightarrow>
        calculateExpiry creationTime (Some L)
          = (True, Some \<lparr>unix = unix creationTime + uint L, zone = UTC\<rparr>))"
  by (auto simp: calculateExpiry_def time_In_def time_Add_def)

theorem C8_calculateExpiry_witness:
  "(0 :: 32 word) < 86400
   \<and> calculateExpiry \<lparr>unix = 1500000000, zone = 3600\<rparr> (Some 86400)
        = (True, Some \<lparr>unix = 1500086400, zone = 0\<rparr>)
   \<and> calculateExpiry \<lparr>unix = 1500000000, zone = 3600\<rparr> (Some 0) = (False, None)
   \<and> calculateExpiry \<lparr>unix = 1500000000, zone = 3600\<rparr> None = (False, None)"
  using C8_calculateExpiry [of "\<lparr>unix = 1500000000, zone = 3600\<rparr>" 86400]
  by (simp add: UTC_def)

subsection \<open>Day counts\<close>

lemma inDays_cases:
  "inDays s = (if s < 0 then - ((- s) div 86400) else s div 86400)"
  by (simp add: inDays_def sgn_if)

lemma inDays_negative: "inDays s < 0 \<longleftrightarrow> s \<le> - 86400"
  unfolding inDays_cases by auto

text \<open>
  C2, as stated, fails: an expiry one second before now differs from now and lies strictly
  before it, yet both day counts succeed, with 0.
\<close>

theorem C2_counterexample:
  "unix \<lparr>unix = 99, zone = 0\<rparr> \<noteq> unix \<lparr>unix = 100, zone = 0\<rparr>
   \<and> unix \<lparr>unix = 99, zone = 0\<rparr> < unix \<lparr>unix = 100, zone = 0\<rparr>
   \<and> getDaysUntilExpiry \<lparr>unix = 99, zone = 0\<rparr> \<lparr>unix = 100, zone = 0\<rparr> = Inr 0
   \<and> getDaysSinceExpiry \<lparr>unix = 99, zone = 0\<rparr> \<lparr>unix = 100, zone = 0\<rparr> = Inr 0"
  by (simp add: getDaysUntilExpiry_def getDaysSinceExpiry_def inDays_def time_Sub_def)

text \<open>
  C2, amended. Each day count is the number of whole 24-hour periods in the difference,
  rounded towards zero. \<^verbatim>\<open>getDaysUntilExpiry\<close> panics exactly when the expiry is 86400
  seconds or more before now, \<^verbatim>\<open>getDaysSinceExpiry\<close> exactly when it is 86400 seconds or
  more after now. When expiry and now are less than 86400 seconds apart both return 0; when
  they are 86400 seconds or more apart, exactly one of the two panics.
\<close>

theorem C2_day_counts:
  "getDaysUntilExpiry expiry now =
     (if unix expiry - unix now \<le> - 86400 then Inl ExpiryHasAlreadyPassed
      else if unix expiry - unix now < 0 then Inr 0
      else Inr (nat ((unix expiry - unix now) div 86400)))
   \<and> getDaysSinceExpiry expiry now =
     (if unix now - unix expiry \<le> - 86400 then Inl ExpiryIsInTheFuture
      else if unix now - unix expiry < 0 then Inr 0
      else Inr (nat ((unix now - unix expiry) div 86400)))
   \<and> (\<bar>unix expiry - unix now\<bar> < 86400 \<longrightarrow>
        getDaysUntilExpiry expiry now = Inr 0 \<and> getDaysSinceExpiry expiry now = Inr 0)
   \<and> (\<bar>unix expiry - unix now\<bar> \<ge> 86400 \<longrightarrow>
        (isl (getDaysUntilExpiry expiry now) \<longleftrightarrow> \<not> isl (getDaysSinceExpiry expiry now)))"
proof -
  have u: "getDaysUntilExpiry expiry now =
     (if unix expiry - unix now \<le> - 86400 then Inl ExpiryHasAlreadyPassed
      else if unix expiry - unix now < 0 then Inr 0
      else Inr (nat ((unix expiry - unix now) div 86400)))"
    unfolding getDaysUntilExpiry_def Let_def inDays_negative time_Sub_def
    by (auto simp: inDays_cases)
  have s: "getDaysSinceExpiry expiry now =
     (if unix now - unix expiry \<le> - 86400 then Inl ExpiryIsInTheFuture
      else if unix now - unix expiry < 0 then Inr 0
      else Inr (nat ((unix now - unix expiry) div 86400)))"
    unfolding getDaysSinceExpiry_def Let_def inDays_negative time_Sub_def
    by (auto simp: inDays_cases)
  show ?thesis unfolding u s by auto
qed

theorem C2_day_counts_witness:
  "getDaysUntilExpiry \<lparr>unix = 0, zone = 0\<rparr> \<lparr>unix = 200000, zone = 0\<rparr> = Inl ExpiryHasAlreadyPassed
   \<and> getDaysSinceExpiry \<lparr>unix = 0, zone = 0\<rparr> \<lparr>unix = 200000, zone = 0\<rparr> = Inr 2
   \<and> getDaysUntilExpiry \<lparr>unix = 200000, zone = 0\<rparr> \<lparr>unix = 200001, zone = 0\<rparr> = Inr 0
   \<and> getDaysSinceExpiry \<lparr>unix = 200000, zone = 0\<rparr> \<lparr>unix = 200001, zone = 0\<rparr> = Inr 0"
  using C2_day_counts [of "\<lparr>unix = 0, zone = 0\<rparr>" "\<lparr>unix = 200000, zone = 0\<rparr>"]
    C2_day_counts [of "\<lparr>unix = 200000, zone = 0\<rparr>" "\<lparr>unix = 200001, zone = 0\<rparr>"]
  by simp

subsection \<open>The calendar\<close>

text \<open>
  \<^verbatim>\<open>absDate\<close> inverts the day count of \<^verbatim>\<open>time.Date\<close>: the year is found by its
  digits in the mixed radix 400, 100, 4, 1 (\<open>a\<close>, \<open>b\<close>, \<open>c\<close>, \<open>e\<close> below).
\<close>

lemma mod_zero_top:
  fixes x n :: int
  assumes "0 < x" "x \<le> n"
  shows "(x mod n = 0) = (x = n)"
proof (cases "x = n")
  case True
  then show ?thesis by simp
next
  case False
  with assms have "x mod n = x" by simp
  with assms False show ?thesis by simp
qed

lemma digits_leap:
  fixes a b c e :: int
  assumes "0 \<le> b" "b \<le> 3" "0 \<le> c" "c \<le> 24" "0 \<le> e" "e \<le> 3"
  shows "isLeap (400 * a + 100 * b + 4 * c + e + 1) = (e = 3 \<and> (c \<noteq> 24 \<or> b = 3))"
proof -
  define Y where "Y = 400 * a + 100 * b + 4 * c + e + 1"
  have m4: "Y mod 4 = (e + 1) mod 4"
  proof -
    have "Y = (e + 1) + 4 * (100 * a + 25 * b + c)" by (simp add: Y_def)
    then show ?thesis by (metis mod_mult_self2)
  qed
  have m100: "Y mod 100 = (4 * c + e + 1) mod 100"
  proof -
    have "Y = (4 * c + e + 1) + 100 * (4 * a + b)" by (simp add: Y_def)
    then show ?thesis by (metis mod_mult_self2)
  qed
  have m400: "Y mod 400 = (100 * b + 4 * c + e + 1) mod 400"
  proof -
    have "Y = (100 * b + 4 * c + e + 1) + 400 * a" by (simp add: Y_def)
    then show ?thesis by (metis mod_mult_self2)
  qed
  have r4: "((e + 1) mod 4 = 0) = (e = 3)"
    using mod_zero_top [of "e + 1" 4] assms by linarith
  have r100: "((4 * c + e + 1) mod 100 = 0) = (c = 24 \<and> e = 3)"
    using mod_zero_top [of "4 * c + e + 1" 100] assms by linarith
  have r400: "((100 * b + 4 * c + e + 1) mod 400 = 0) = (b = 3 \<and> c = 24 \<and> e = 3)"
    using mod_zero_top [of "100 * b + 4 * c + e + 1" 400] assms by linarith
  have "isLeap Y = (e = 3 \<and> (c \<noteq> 24 \<or> b = 3))"
    unfolding isLeap_def m4 m100 m400 r4 r100 r400 by auto
  then show ?thesis by (simp add: Y_def)
qed


lemma digits_div:
  fixes a b c e :: int
  assumes "0 \<le> b" "b \<le> 3" "0 \<le> c" "c \<le> 24" "0 \<le> e" "e \<le> 3"
  shows "(400 * a + 100 * b + 4 * c + e) div 400 = a"
    and "(100 * b + 4 * c + e) div 100 = b"
    and "(4 * c + e) div 4 = c"
  using assms by auto

lemma yearStart_digits:
  fixes a b c e :: int
  assumes "0 \<le> b" "b \<le> 3" "0 \<le> c" "c \<le> 24" "0 \<le> e" "e \<le> 3"
  shows "daysSinceYear1 (400 * a + 100 * b + 4 * c + e + 1) 1 1 = 146097 * a + 36524 * b + 1461 * c + 365 * e"
proof -
  define Y where "Y = 400 * a + 100 * b + 4 * c + e"
  have 1: "Y div 400 = a" unfolding Y_def using digits_div(1)[OF assms] .
  have Y1: "Y - 400 * a = 100 * b + 4 * c + e" by (simp add: Y_def)
  have 2: "(Y - 400 * a) div 100 = b" unfolding Y1 using digits_div(2)[OF assms] .
  have Y2: "Y - 400 * a - 100 * b = 4 * c + e" by (simp add: Y_def)
  have 3: "(Y - 400 * a - 100 * b) div 4 = c" unfolding Y2 using digits_div(3)[OF assms] .
  have Y3: "Y - 400 * a - 100 * b - 4 * c = e" by (simp add: Y_def)
  have "daysSinceYear1 (Y + 1) 1 1 = 146097 * a + 36524 * b + 1461 * c + 365 * e"
    unfolding daysSinceYear1_def Let_def daysBefore_def daysPer400Years_def daysPer100Years_def daysPer4Years_def
    by (simp add: 1 2 3 Y3)
  then show ?thesis by (simp add: Y_def)
qed

lemma cut3:
  fixes n :: int
  assumes "0 \<le> n" "n \<le> 4"
  shows "n - n div 4 = (if n = 4 then 3 else n)"
  using assms by auto

lemma absYear_digits:
  fixes z :: int
  obtains a b c e yd where
    "0 \<le> b" "b \<le> 3" "0 \<le> c" "c \<le> 24" "0 \<le> e" "e \<le> 3"
    "absYear z = (400 * a + 100 * b + 4 * c + e + 1, yd)"
    "z = 146097 * a + 36524 * b + 1461 * c + 365 * e + yd"
    "0 \<le> yd" "yd < (if e = 3 \<and> (c \<noteq> 24 \<or> b = 3) then 366 else 365)"
proof -
  define a where "a = z div 146097"
  define d0 where "d0 = z - 146097 * a"
  have d0: "0 \<le> d0" "d0 < 146097"
    unfolding d0_def a_def by (simp_all add: minus_mult_div_eq_mod)
  define n1 where "n1 = d0 div 36524"
  have n1: "0 \<le> n1" "n1 \<le> 4" unfolding n1_def using d0 by auto
  define b where "b = n1 - n1 div 4"
  have b_eq: "b = (if n1 = 4 then 3 else n1)" unfolding b_def using cut3[OF n1] .
  have b: "0 \<le> b" "b \<le> 3" using b_eq n1 by auto
  define d1 where "d1 = d0 - 36524 * b"
  have n1_bounds: "36524 * n1 \<le> d0" "d0 < 36524 * n1 + 36524"
    unfolding n1_def by auto
  have d1: "0 \<le> d1" "d1 < (if b = 3 then 36525 else 36524)"
    using n1_bounds d0 b_eq n1 unfolding d1_def by (auto split: if_splits)
  define c where "c = d1 div 1461"
  have c_bounds: "1461 * c \<le> d1" "d1 < 1461 * c + 1461" unfolding c_def by auto
  have c: "0 \<le> c" "c \<le> 24" using c_bounds d1 by (auto split: if_splits)
  define d2 where "d2 = d1 - 1461 * c"
  have d2: "0 \<le> d2" "d2 < 1461" using c_bounds unfolding d2_def by auto
  have d2': "c = 24 \<Longrightarrow> b \<noteq> 3 \<Longrightarrow> d2 < 1460"
    using d1 unfolding d2_def by auto
  define n3 where "n3 = d2 div 365"
  have n3_bounds: "365 * n3 \<le> d2" "d2 < 365 * n3 + 365" unfolding n3_def by auto
  have n3: "0 \<le> n3" "n3 \<le> 4" using n3_bounds d2 by auto
  define e where "e = n3 - n3 div 4"
  have e_eq: "e = (if n3 = 4 then 3 else n3)" unfolding e_def using cut3[OF n3] .
  have e: "0 \<le> e" "e \<le> 3" using e_eq n3 by auto
  define yd where "yd = d2 - 365 * e"
  have yd0: "0 \<le> yd" using n3_bounds e_eq n3 unfolding yd_def by (auto split: if_splits)
  have yd1: "yd < (if e = 3 \<and> (c \<noteq> 24 \<or> b = 3) then 366 else 365)"
    using n3_bounds e_eq n3 d2 d2' unfolding yd_def by (auto split: if_splits)
  have z: "z = 146097 * a + 36524 * b + 1461 * c + 365 * e + yd"
    unfolding yd_def d2_def d1_def d0_def by simp
  have "absYear z = (400 * a + 100 * b + 4 * c + e + 1, yd)"
    unfolding absYear_def Let_def daysPer400Years_def daysPer100Years_def daysPer4Years_def
    by (simp add: a_def [symmetric] d0_def [symmetric] n1_def [symmetric] b_def [symmetric]
        d1_def [symmetric] c_def [symmetric] d2_def [symmetric] n3_def [symmetric]
        e_def [symmetric] yd_def [symmetric])
  with b c e z yd0 yd1 show ?thesis using that by blast
qed

lemma absYear_correct:
  assumes "absYear z = (y, yd)"
  shows "daysSinceYear1 y 1 1 + yd = z" and "0 \<le> yd"
    and "yd < (if isLeap y then 366 else 365)"
proof -
  obtain a b c e yd' where
    dg: "0 \<le> b" "b \<le> 3" "0 \<le> c" "c \<le> 24" "0 \<le> e" "e \<le> 3" and
    ay: "absYear z = (400 * a + 100 * b + 4 * c + e + 1, yd')" and
    z: "z = 146097 * a + 36524 * b + 1461 * c + 365 * e + yd'" and
    yd: "0 \<le> yd'" "yd' < (if e = 3 \<and> (c \<noteq> 24 \<or> b = 3) then 366 else 365)"
    by (rule absYear_digits [of z])
  from ay assms have y: "y = 400 * a + 100 * b + 4 * c + e + 1" and yy: "yd = yd'" by simp_all
  show "daysSinceYear1 y 1 1 + yd = z"
    unfolding y yy yearStart_digits [OF dg] using z by simp
  show "0 \<le> yd" using yd yy by simp
  show "yd < (if isLeap y then 366 else 365)"
    unfolding y yy digits_leap [OF dg] using yd by simp
qed

lemma monthIndex_cases:
  fixes k :: int
  assumes "0 \<le> k" "k \<le> 11"
  shows "k = 0 \<or> k = 1 \<or> k = 2 \<or> k = 3 \<or> k = 4 \<or> k = 5 \<or> k = 6 \<or> k = 7 \<or> k = 8 \<or> k = 9 \<or> k = 10 \<or> k = 11"
  using assms by arith

lemma monthDay_plain:
  fixes day :: int
  assumes "0 \<le> day" "day < 365"
  defines "month \<equiv> day div 31"
  defines "r \<equiv> (if day \<ge> daysBefore (month + 1) then (month + 1 + 1, day - daysBefore (month + 1) + 1)
           else (month + 1, day - daysBefore month + 1))"
  shows "1 \<le> fst r" "fst r \<le> 12" "1 \<le> snd r" "snd r \<le> daysBefore (fst r) - daysBefore (fst r - 1)"
    "daysBefore (fst r - 1) + snd r - 1 = day"
proof -
  have kb: "31 * month \<le> day" "day < 31 * month + 31" unfolding month_def by auto
  with assms(1,2) have "0 \<le> month" "month \<le> 11" by auto
  then consider "month = 0" | "month = 1" | "month = 2" | "month = 3" | "month = 4" | "month = 5"
    | "month = 6" | "month = 7" | "month = 8" | "month = 9" | "month = 10" | "month = 11"
    using monthIndex_cases by blast
  then have "1 \<le> fst r \<and> fst r \<le> 12 \<and> 1 \<le> snd r \<and> snd r \<le> daysBefore (fst r) - daysBefore (fst r - 1)
    \<and> daysBefore (fst r - 1) + snd r - 1 = day"
  proof cases
    case 1 with kb assms(1,2) show ?thesis unfolding r_def by (simp add: daysBefore_def)
  next
    case 2 with kb assms(1,2) show ?thesis unfolding r_def by (simp add: daysBefore_def)
  next
    case 3 with kb assms(1,2) show ?thesis unfolding r_def by (simp add: daysBefore_def)
  next
    case 4 with kb assms(1,2) show ?thesis unfolding r_def by (simp add: daysBefore_def)
  next
    case 5 with kb assms(1,2) show ?thesis unfolding r_def by (simp add: daysBefore_def)
  next
    case 6 with kb assms(1,2) show ?thesis unfolding r_def by (simp add: daysBefore_def)
  next
    case 7 with kb assms(1,2) show ?thesis unfolding r_def by (simp add: daysBefore_def)
  next
    case 8 with kb assms(1,2) show ?thesis unfolding r_def by (simp add: daysBefore_def)
  next
    case 9 with kb assms(1,2) show ?thesis unfolding r_def by (simp add: daysBefore_def)
  next
    case 10 with kb assms(1,2) show ?thesis unfolding r_def by (simp add: daysBefore_def)
  next
    case 11 with kb assms(1,2) show ?thesis unfolding r_def by (simp add: daysBefore_def)
  next
    case 12 with kb assms(1,2) show ?thesis unfolding r_def by (simp add: daysBefore_def)
  qed
  then show "1 \<le> fst r" "fst r \<le> 12" "1 \<le> snd r" "snd r \<le> daysBefore (fst r) - daysBefore (fst r - 1)"
    "daysBefore (fst r - 1) + snd r - 1 = day" by simp_all
qed

lemma daysSinceYear1_split:
  "daysSinceYear1 y m d =
     daysSinceYear1 y 1 1 + daysBefore (m - 1) + (if isLeap y \<and> m \<ge> 3 then 1 else 0) + (d - 1)"
  unfolding daysSinceYear1_def Let_def by (simp add: daysBefore_def)

lemma yearDay_correct:
  assumes "0 \<le> yd" "yd < (if isLeap y then 366 else 365)"
    and "yearDayToMonthDay y yd = (m, d)"
  shows "1 \<le> m \<and> m \<le> 12 \<and> 1 \<le> d \<and> d \<le> daysIn m y
     \<and> daysBefore (m - 1) + (if isLeap y \<and> m \<ge> 3 then 1 else 0) + (d - 1) = yd"
proof (cases "isLeap y \<and> yd = 31 + 29 - 1")
  case True
  with assms(3) have "m = 2" "d = 29" by (simp_all add: yearDayToMonthDay_def)
  with True show ?thesis by (simp add: daysIn_def daysBefore_def)
next
  case False
  define day where "day = (if isLeap y \<and> yd > 31 + 29 - 1 then yd - 1 else yd)"
  define month where "month = day div 31"
  define r where "r = (if day \<ge> daysBefore (month + 1) then (month + 1 + 1, day - daysBefore (month + 1) + 1)
           else (month + 1, day - daysBefore month + 1))"
  have day: "0 \<le> day" "day < 365" using assms(1,2) False unfolding day_def by (auto split: if_splits)
  note md = monthDay_plain [OF day, folded month_def, folded r_def]
  have "yearDayToMonthDay y yd = r"
    using False unfolding yearDayToMonthDay_def Let_def r_def month_def day_def by auto
  with assms(3) have r: "fst r = m" "snd r = d" by simp_all
  note md' = md [unfolded r]
  show ?thesis
  proof (cases "isLeap y")
    case nl: False
    then have "day = yd" by (simp add: day_def)
    with md' nl show ?thesis by (simp add: daysIn_def)
  next
    case lp: True
    show ?thesis
    proof (cases "yd > 31 + 29 - 1")
      case after: True
      then have dy: "day = yd - 1" using lp by (simp add: day_def)
      have "m \<ge> 3"
      proof (rule ccontr)
        assume "\<not> m \<ge> 3"
        with md'(1) have "m = 1 \<or> m = 2" by arith
        then show False using md'(3,4,5) dy after by (auto simp: daysBefore_def)
      qed
      with md' lp dy show ?thesis by (simp add: daysIn_def)
    next
      case before: False
      with False lp have lt: "yd < 59" by simp
      then have dy: "day = yd" by (simp add: day_def)
      have "m \<le> 2"
      proof (rule ccontr)
        assume "\<not> m \<le> 2"
        then have "m - 1 \<ge> 2" by simp
        then have "daysBefore (m - 1) \<ge> 59" by (simp add: daysBefore_def)
        with md'(3,5) dy lt show False by simp
      qed
      with md'(1) have "m = 1 \<or> m = 2" by arith
      then show ?thesis using md' lp dy lt by (auto simp: daysIn_def daysBefore_def)
    qed
  qed
qed

lemma absDate_correct:
  assumes "absDate z = (y, m, d)"
  shows "1 \<le> m" "m \<le> 12" "1 \<le> d" "d \<le> daysIn m y" "daysSinceYear1 y m d = z"
proof -
  obtain y' yd where ay: "absYear z = (y', yd)" by (cases "absYear z")
  obtain m' d' where md: "yearDayToMonthDay y' yd = (m', d')" by (cases "yearDayToMonthDay y' yd")
  from assms ay md have eq: "y' = y" "m' = m" "d' = d" by (simp_all add: absDate_def)
  note yc = absYear_correct [OF ay, unfolded eq]
  note mc = yearDay_correct [OF yc(2) yc(3) md [unfolded eq]]
  from mc show "1 \<le> m" "m \<le> 12" "1 \<le> d" "d \<le> daysIn m y" by simp_all
  have "daysSinceYear1 y m d = daysSinceYear1 y 1 1 + yd"
    using mc by (subst daysSinceYear1_split) simp
  with yc(1) show "daysSinceYear1 y m d = z" by simp
qed

lemma daysIn_bounds:
  assumes "1 \<le> m" "m \<le> 12"
  shows "28 \<le> daysIn m y" "daysIn m y \<le> 31"
proof -
  from assms have "m - 1 = 0 \<or> m - 1 = 1 \<or> m - 1 = 2 \<or> m - 1 = 3 \<or> m - 1 = 4 \<or> m - 1 = 5 \<or> m - 1 = 6
    \<or> m - 1 = 7 \<or> m - 1 = 8 \<or> m - 1 = 9 \<or> m - 1 = 10 \<or> m - 1 = 11"
    by (intro monthIndex_cases) simp_all
  then have "m = 1 \<or> m = 2 \<or> m = 3 \<or> m = 4 \<or> m = 5 \<or> m = 6 \<or> m = 7 \<or> m = 8 \<or> m = 9 \<or> m = 10 \<or> m = 11 \<or> m = 12"
    by arith
  then show "28 \<le> daysIn m y" "daysIn m y \<le> 31"
    by (auto simp: daysIn_def daysBefore_def)
qed

lemma daysSinceYear1_day:
  "daysSinceYear1 y m d = daysSinceYear1 y m 1 + (d - 1)"
  by (simp add: daysSinceYear1_split [of y m d] daysSinceYear1_split [of y m 1])

lemma div_day_bounds:
  fixes s :: int
  shows "(s div 86400) * 86400 \<le> s" "s < (s div 86400) * 86400 + 86400"
  by auto

lemma beginningOfMonth_zone: "zone (beginningOfMonth t) = 0"
  by (simp add: beginningOfMonth_def time_In_def UTC_def split: prod.splits)

lemma beginningOfMonth_bounds:
  "unix (beginningOfMonth t) \<le> unix t" "unix t < unix (beginningOfMonth t) + 31 * 86400"
proof -
  define z where "z = (unix t + zone t) div 86400 + unixToInternalDays"
  obtain y m d where ad: "absDate z = (y, m, d)" by (cases "absDate z") auto
  note c = absDate_correct [OF ad]
  have d31: "d \<le> 31" using c(4) daysIn_bounds(2) [OF c(1) c(2), of y] by simp
  have S: "daysSinceYear1 y m 1 = z - (d - 1)"
    using c(5) daysSinceYear1_day [of y m d] by simp
  have b: "unix (beginningOfMonth t) = (z - (d - 1) - unixToInternalDays) * 86400 - zone t"
    using ad unfolding beginningOfMonth_def time_DateOf_def z_def [symmetric] secondsPerDay_def
    by (simp add: time_In_def time_Date_def S secondsPerDay_def)
  have zq: "z - unixToInternalDays = (unix t + zone t) div 86400" by (simp add: z_def)
  note db = div_day_bounds [of "unix t + zone t", folded zq]
  have e: "(z - (d - 1) - unixToInternalDays) * 86400 = (z - unixToInternalDays) * 86400 - (d - 1) * 86400"
    by (simp add: algebra_simps)
  show "unix (beginningOfMonth t) \<le> unix t"
    unfolding b e using db(1) c(3) by simp
  show "unix t < unix (beginningOfMonth t) + 31 * 86400"
    unfolding b e using db(2) d31 by simp
qed

lemma nextExpiryTime_after_now: "unix now < unix (nextExpiryTime now)"
proof -
  define b1 where "b1 = beginningOfMonth now"
  define t2 where "t2 = time_Add b1 fortyFiveDays"
  define b2 where "b2 = beginningOfMonth t2"
  have n: "unix (nextExpiryTime now) = unix b2 + 30 * 86400"
    by (simp add: nextExpiryTime_def firstOfNextMonth_def Let_def b2_def t2_def b1_def
        time_In_def time_Add_def thirtyDays_def)
  have t2: "unix t2 = unix b1 + 45 * 86400"
    by (simp add: t2_def time_Add_def fortyFiveDays_def)
  have 1: "unix now < unix b1 + 31 * 86400"
    unfolding b1_def by (rule beginningOfMonth_bounds)
  have 2: "unix t2 < unix b2 + 31 * 86400"
    unfolding b2_def by (rule beginningOfMonth_bounds)
  from 1 2 t2 n show ?thesis by simp
qed

lemma expired_not_too_long:
  assumes "isExpired expiry now"
  shows "\<not> isExpiryTooLong expiry now"
  using assms nextExpiryTime_after_now [of now]
  by (simp add: isExpired_def isExpiryTooLong_def time_Before_def time_After_def)

subsection \<open>The month after the current one\<close>

lemma year_digits:
  fixes Y :: int
  obtains a b c e where "0 \<le> b" "b \<le> 3" "0 \<le> c" "c \<le> 24" "0 \<le> e" "e \<le> 3"
    "Y = 400 * a + 100 * b + 4 * c + e"
proof -
  define a where "a = Y div 400"
  define r where "r = Y mod 400"
  define b where "b = r div 100"
  define r2 where "r2 = r mod 100"
  define c where "c = r2 div 4"
  define e where "e = r2 mod 4"
  have r: "0 \<le> r" "r < 400" by (simp_all add: r_def)
  have r2: "0 \<le> r2" "r2 < 100" by (simp_all add: r2_def)
  have b: "0 \<le> b" "b \<le> 3" using r by (auto simp: b_def)
  have c: "0 \<le> c" "c \<le> 24" using r2 by (auto simp: c_def)
  have e: "0 \<le> e" "e \<le> 3" by (auto simp: e_def)
  have "Y = 400 * a + r" by (simp add: a_def r_def)
  moreover have "r = 100 * b + r2" by (simp add: b_def r2_def)
  moreover have "r2 = 4 * c + e" by (simp add: c_def e_def)
  ultimately have "Y = 400 * a + 100 * b + 4 * c + e" by simp
  with b c e show ?thesis using that by blast
qed

lemma yearLength:
  "daysSinceYear1 (y + 1) 1 1 = daysSinceYear1 y 1 1 + (if isLeap y then 366 else 365)"
proof -
  obtain a b c e where dg: "0 \<le> b" "b \<le> 3" "0 \<le> c" "c \<le> 24" "0 \<le> e" "e \<le> 3"
    and Y: "y - 1 = 400 * a + 100 * b + 4 * c + e"
    by (rule year_digits [of "y - 1"])
  have y: "y = 400 * a + 100 * b + 4 * c + e + 1" using Y by simp
  have s: "daysSinceYear1 y 1 1 = 146097 * a + 36524 * b + 1461 * c + 365 * e"
    unfolding y by (rule yearStart_digits [OF dg])
  have l: "isLeap y = (e = 3 \<and> (c \<noteq> 24 \<or> b = 3))"
    unfolding y by (rule digits_leap [OF dg])
  consider (e) "e < 3" | (c) "e = 3" "c < 24" | (b) "e = 3" "c = 24" "b < 3"
    | (a) "e = 3" "c = 24" "b = 3"
    using dg by linarith
  then show ?thesis
  proof cases
    case e
    have y1: "y + 1 = 400 * a + 100 * b + 4 * c + (e + 1) + 1" by (simp add: y)
    have "daysSinceYear1 (y + 1) 1 1 = 146097 * a + 36524 * b + 1461 * c + 365 * (e + 1)"
      unfolding y1 using dg e by (intro yearStart_digits) simp_all
    with s l e show ?thesis by simp
  next
    case c
    have y1: "y + 1 = 400 * a + 100 * b + 4 * (c + 1) + 0 + 1" by (simp add: y c)
    have "daysSinceYear1 (y + 1) 1 1 = 146097 * a + 36524 * b + 1461 * (c + 1) + 365 * 0"
      unfolding y1 using dg c by (intro yearStart_digits) simp_all
    with s l c show ?thesis by simp
  next
    case b
    have y1: "y + 1 = 400 * a + 100 * (b + 1) + 4 * 0 + 0 + 1" by (simp add: y b)
    have "daysSinceYear1 (y + 1) 1 1 = 146097 * a + 36524 * (b + 1) + 1461 * 0 + 365 * 0"
      unfolding y1 using dg b by (intro yearStart_digits) simp_all
    with s l b show ?thesis by simp
  next
    case a
    have y1: "y + 1 = 400 * (a + 1) + 100 * 0 + 4 * 0 + 0 + 1" by (simp add: y a)
    have "daysSinceYear1 (y + 1) 1 1 = 146097 * (a + 1) + 36524 * 0 + 1461 * 0 + 365 * 0"
      unfolding y1 by (intro yearStart_digits) simp_all
    with s l a show ?thesis by simp
  qed
qed

lemma yearStart_strict_mono:
  assumes "y < y'"
  shows "daysSinceYear1 y 1 1 + (if isLeap y then 366 else 365) \<le> daysSinceYear1 y' 1 1"
proof -
  from assms have "y + 1 \<le> y'" by simp
  then show ?thesis
  proof (induction y' rule: int_ge_induct)
    case base
    show ?case by (simp add: yearLength)
  next
    case (step i)
    have "daysSinceYear1 i 1 1 \<le> daysSinceYear1 (i + 1) 1 1"
      by (simp add: yearLength [of i])
    with step.IH show ?case by linarith
  qed
qed

lemma month_cases:
  fixes m :: int
  assumes "1 \<le> m" "m \<le> 12"
  shows "m = 1 \<or> m = 2 \<or> m = 3 \<or> m = 4 \<or> m = 5 \<or> m = 6 \<or> m = 7 \<or> m = 8 \<or> m = 9
    \<or> m = 10 \<or> m = 11 \<or> m = 12"
  using assms by arith

lemma month_step:
  assumes "1 \<le> m" "m \<le> 11"
  shows "daysSinceYear1 y (m + 1) 1 = daysSinceYear1 y m 1 + daysIn m y"
proof -
  from assms have "m = 1 \<or> m = 2 \<or> m = 3 \<or> m = 4 \<or> m = 5 \<or> m = 6 \<or> m = 7 \<or> m = 8 \<or> m = 9
    \<or> m = 10 \<or> m = 11" by arith
  then show ?thesis
    unfolding daysSinceYear1_split [of y "m + 1" 1] daysSinceYear1_split [of y m 1]
    by (auto simp: daysIn_def daysBefore_def)
qed

lemma december_step:
  "daysSinceYear1 (y + 1) 1 1 = daysSinceYear1 y 12 1 + daysIn 12 y"
  unfolding yearLength daysSinceYear1_split [of y 12 1]
  by (simp add: daysIn_def daysBefore_def)

lemma month_start_ge_year_start:
  assumes "1 \<le> m" "m \<le> 12"
  shows "daysSinceYear1 y 1 1 \<le> daysSinceYear1 y m 1"
  using month_cases [OF assms]
  unfolding daysSinceYear1_split [of y m 1]
  by (auto simp: daysBefore_def)

lemma month_order_same_year:
  assumes "1 \<le> m" "m < m'" "m' \<le> 12"
  shows "daysSinceYear1 y m 1 + daysIn m y \<le> daysSinceYear1 y m' 1"
proof -
  from assms(2) have "m + 1 \<le> m'" by simp
  then have "m' \<le> 12 \<longrightarrow> daysSinceYear1 y m 1 + daysIn m y \<le> daysSinceYear1 y m' 1"
  proof (induction m' rule: int_ge_induct)
    case base
    show ?case using month_step [of m y] assms(1) by auto
  next
    case (step i)
    show ?case
    proof
      assume i: "i + 1 \<le> 12"
      with step.hyps assms(1) have r: "1 \<le> i" "i \<le> 11" by simp_all
      have "0 \<le> daysIn i y" using daysIn_bounds(1) [of i y] r by simp
      with month_step [OF r, of y] step.IH i show
        "daysSinceYear1 y m 1 + daysIn m y \<le> daysSinceYear1 y (i + 1) 1" by simp
    qed
  qed
  with assms(3) show ?thesis by simp
qed

lemma month_end_le_next_year:
  assumes "1 \<le> m" "m \<le> 12"
  shows "daysSinceYear1 y m 1 + daysIn m y \<le> daysSinceYear1 (y + 1) 1 1"
proof (cases "m = 12")
  case True
  then show ?thesis by (simp add: december_step)
next
  case False
  with assms have "m < 12" by simp
  from month_order_same_year [OF assms(1) this, of y] daysIn_bounds(1) [of 12 y]
  show ?thesis by (simp add: december_step)
qed

lemma month_order:
  assumes "1 \<le> m" "m \<le> 12" "1 \<le> m'" "m' \<le> 12"
    and "y < y' \<or> (y = y' \<and> m < m')"
  shows "daysSinceYear1 y m 1 + daysIn m y \<le> daysSinceYear1 y' m' 1"
proof (cases "y < y'")
  case True
  then have "y + 1 \<le> y'" by simp
  then have "daysSinceYear1 (y + 1) 1 1 \<le> daysSinceYear1 y' 1 1"
  proof (cases "y + 1 = y'")
    case True
    then show ?thesis by simp
  next
    case False
    with \<open>y + 1 \<le> y'\<close> have "y + 1 < y'" by simp
    from yearStart_strict_mono [OF this] show ?thesis by (simp split: if_splits)
  qed
  with month_end_le_next_year [OF assms(1,2), of y] month_start_ge_year_start [OF assms(3,4), of y']
  show ?thesis by linarith
next
  case False
  with assms(5) have "y = y'" "m < m'" by simp_all
  with month_order_same_year [of m m' y] assms(1,4) show ?thesis by simp
qed

lemma absDate_of_month:
  assumes m: "1 \<le> m" "m \<le> 12"
    and z: "daysSinceYear1 y m 1 \<le> z" "z < daysSinceYear1 y m 1 + daysIn m y"
  shows "absDate z = (y, m, z - daysSinceYear1 y m 1 + 1)"
proof -
  obtain y2 m2 d2 where ad: "absDate z = (y2, m2, d2)" by (cases "absDate z") auto
  note c = absDate_correct [OF ad]
  have s2: "daysSinceYear1 y2 m2 1 = z - (d2 - 1)"
    using c(5) daysSinceYear1_day [of y2 m2 d2] by simp
  have lo: "daysSinceYear1 y2 m2 1 \<le> z" using s2 c(3) by simp
  have hi: "z < daysSinceYear1 y2 m2 1 + daysIn m2 y2" using s2 c(4) by simp
  have "\<not> (y < y2 \<or> (y = y2 \<and> m < m2))"
  proof
    assume "y < y2 \<or> (y = y2 \<and> m < m2)"
    from month_order [OF m c(1,2) this] z(2) lo show False by simp
  qed
  moreover have "\<not> (y2 < y \<or> (y2 = y \<and> m2 < m))"
  proof
    assume "y2 < y \<or> (y2 = y \<and> m2 < m)"
    from month_order [OF c(1,2) m this] z(1) hi show False by simp
  qed
  ultimately have eq: "y2 = y" "m2 = m" by auto
  with s2 have "d2 = z - daysSinceYear1 y m 1 + 1" by simp
  with ad eq show ?thesis by simp
qed

lemma next_month_start:
  assumes "1 \<le> m" "m \<le> 12"
  shows "daysSinceYear1 (if m = 12 then y + 1 else y) (if m = 12 then 1 else m + 1) 1
           = daysSinceYear1 y m 1 + daysIn m y"
  using assms month_step [of m y] december_step [of y] by auto

lemma next_month_range:
  fixes m :: int
  assumes "1 \<le> m" "m \<le> 12"
  shows "1 \<le> (if m = 12 then 1 else m + 1)" and "(if m = 12 then 1 else m + 1) \<le> 12"
  using assms by auto

lemma div_day_shift:
  fixes k r :: int
  shows "(k * 86400 + r) div 86400 = k + r div 86400"
  by simp

lemma zone_day_offset:
  fixes off :: int
  assumes "\<bar>off\<bar> \<le> 86400"
  shows "- 1 \<le> (- off) div 86400" "(- off) div 86400 \<le> 1"
  using assms by auto

lemma firstOfNextMonth_is_next_month:
  assumes d: "time_DateOf now = (y, m, d)" and off: "\<bar>zone now\<bar> \<le> 86400"
  shows "firstOfNextMonth now
           = time_Date (if m = 12 then y + 1 else y) (if m = 12 then 1 else m + 1) 1 UTC"
proof -
  let ?y' = "if m = 12 then y + 1 else y"
  let ?m' = "if m = 12 then 1 else m + 1"
  define z where "z = (unix now + zone now) div 86400 + unixToInternalDays"
  from d have ad: "absDate z = (y, m, d)"
    by (simp add: time_DateOf_def z_def secondsPerDay_def)
  note c = absDate_correct [OF ad]
  define S where "S = daysSinceYear1 y m 1"
  have b1: "beginningOfMonth now = \<lparr>unix = (S - unixToInternalDays) * 86400 - zone now, zone = 0\<rparr>"
    by (simp add: beginningOfMonth_def d time_Date_def time_In_def UTC_def secondsPerDay_def S_def)
  define t2 where "t2 = time_Add (beginningOfMonth now) fortyFiveDays"
  have t2: "unix t2 = (S - unixToInternalDays + 45) * 86400 + (- zone now)" "zone t2 = 0"
    by (simp_all add: t2_def b1 time_Add_def fortyFiveDays_def algebra_simps)
  define z2 where "z2 = S + 45 + (- zone now) div 86400"
  have "(unix t2 + zone t2) div 86400
      = (S - unixToInternalDays + 45) + (- zone now) div 86400"
    unfolding t2 by (simp only: add_0_right div_day_shift)
  then have dz2: "(unix t2 + zone t2) div 86400 + unixToInternalDays = z2"
    by (simp add: z2_def)
  note o = zone_day_offset [OF off]
  note nm = next_month_start [OF c(1,2), of y, folded S_def] next_month_range [OF c(1,2)]
  have len: "28 \<le> daysIn m y" "daysIn m y \<le> 31"
    using daysIn_bounds [OF c(1,2)] by simp_all
  have len': "28 \<le> daysIn ?m' ?y'"
    using daysIn_bounds(1) [OF nm(2,3)] by simp
  have lo: "daysSinceYear1 ?y' ?m' 1 \<le> z2"
    unfolding nm(1) z2_def using len o by simp
  have hi: "z2 < daysSinceYear1 ?y' ?m' 1 + daysIn ?m' ?y'"
    unfolding nm(1) z2_def using len len' o by linarith
  from absDate_of_month [OF nm(2,3) lo hi]
  have "time_DateOf t2 = (?y', ?m', z2 - daysSinceYear1 ?y' ?m' 1 + 1)"
    unfolding time_DateOf_def secondsPerDay_def dz2 .
  then have "beginningOfMonth t2 = time_In (time_Date ?y' ?m' 1 (zone t2)) UTC"
    unfolding beginningOfMonth_def by simp
  also have "\<dots> = time_Date ?y' ?m' 1 UTC"
    by (simp add: t2(2) UTC_def time_In_def time_Date_def)
  finally show ?thesis
    by (simp add: firstOfNextMonth_def Let_def t2_def)
qed

subsection \<open>The too-long ceiling\<close>

text \<open>
  C3, as stated, fails. On September 15, 2018 the ceiling is October 1 plus 30 days, and
  October 1 starts 30 days after the beginning of September, not at least 45. The first
  month that starts at least 45 days after it is November; the ceiling is not November 1
  plus 30 days, and an expiry on November 1 is already too long.
\<close>

theorem C3_counterexample:
  "beginningOfMonth (atUTC 1536969600) = atUTC 1535760000
   \<and> nextExpiryTime (atUTC 1536969600) = atUTC 1540944000
   \<and> time_Add (time_Date 2018 10 1 UTC) thirtyDays = atUTC 1540944000
   \<and> unix (time_Date 2018 10 1 UTC) - unix (beginningOfMonth (atUTC 1536969600)) < fortyFiveDays
   \<and> unix (time_Date 2018 11 1 UTC) - unix (beginningOfMonth (atUTC 1536969600)) \<ge> fortyFiveDays
   \<and> nextExpiryTime (atUTC 1536969600) \<noteq> time_Add (time_Date 2018 11 1 UTC) thirtyDays
   \<and> isExpiryTooLong (time_Date 2018 11 1 UTC) (atUTC 1536969600)"
  by code_simp

text \<open>
  C3, amended. For a clock reading in a zone at most 24 hours from UTC, whose date in that
  zone falls in month \<open>m\<close> of year \<open>y\<close>, the ceiling is the first day, 00:00 UTC, of the
  calendar month after \<open>m\<close> (the month that holds the instant 45 days after the beginning
  of month \<open>m\<close>), plus 30 days. An expiry is too long exactly when it is strictly after the
  ceiling: the ceiling itself is not too long, one second later is.
\<close>

theorem C3_too_long_ceiling:
  assumes "time_DateOf now = (y, m, d)" and "\<bar>zone now\<bar> \<le> 86400"
  shows "nextExpiryTime now
           = time_Add
               (time_Date (if m = 12 then y + 1 else y) (if m = 12 then 1 else m + 1) 1 UTC)
               thirtyDays
         \<and> isExpiryTooLong expiry now = (unix (nextExpiryTime now) < unix expiry)
         \<and> \<not> isExpiryTooLong (nextExpiryTime now) now
         \<and> isExpiryTooLong (time_Add (nextExpiryTime now) 1) now"
proof -
  have z: "zone (time_Date y' m' 1 UTC) = UTC" for y' m'
    by (simp add: time_Date_def)
  have "nextExpiryTime now
           = time_Add
               (time_Date (if m = 12 then y + 1 else y) (if m = 12 then 1 else m + 1) 1 UTC)
               thirtyDays"
    unfolding nextExpiryTime_def firstOfNextMonth_is_next_month [OF assms]
    by (simp add: time_In_def time_Add_def time_Date_def)
  moreover have "isExpiryTooLong expiry now = (unix (nextExpiryTime now) < unix expiry)"
    by (simp add: isExpiryTooLong_def time_After_def)
  moreover have "\<not> isExpiryTooLong (nextExpiryTime now) now"
    by (simp add: isExpiryTooLong_def time_After_def)
  moreover have "isExpiryTooLong (time_Add (nextExpiryTime now) 1) now"
    by (simp add: isExpiryTooLong_def time_After_def time_Add_def)
  ultimately show ?thesis by blast
qed

theorem C3_too_long_ceiling_witness:
  "time_DateOf \<lparr>unix = 1538348400, zone = 7200\<rparr> = (2018, 10, 1)
   \<and> \<bar>zone \<lparr>unix = 1538348400, zone = 7200\<rparr>\<bar> \<le> 86400
   \<and> nextExpiryTime \<lparr>unix = 1538348400, zone = 7200\<rparr>
       = time_Add (time_Date 2018 11 1 UTC) thirtyDays
   \<and> time_Add (time_Date 2018 11 1 UTC) thirtyDays = atUTC 1543622400
   \<and> \<not> isExpiryTooLong (atUTC 1543622400) \<lparr>unix = 1538348400, zone = 7200\<rparr>
   \<and> isExpiryTooLong (atUTC 1543622401) \<lparr>unix = 1538348400, zone = 7200\<rparr>"
proof -
  let ?now = "\<lparr>unix = 1538348400, zone = 7200\<rparr> :: Time"
  have 1: "time_DateOf ?now = (2018, 10, 1)" by code_simp
  have 2: "\<bar>zone ?now\<bar> \<le> 86400" by simp
  have 3: "time_Add (time_Date 2018 11 1 UTC) thirtyDays = atUTC 1543622400" by code_simp
  note c = C3_too_long_ceiling [OF 1 2]
  from c [of ?now] have n: "nextExpiryTime ?now = time_Add (time_Date 2018 11 1 UTC) thirtyDays"
    by simp
  have u: "unix (nextExpiryTime ?now) = 1543622400"
    unfolding n 3 by (simp add: atUTC_def)
  from c [of "atUTC 1543622400"] u have a: "\<not> isExpiryTooLong (atUTC 1543622400) ?now"
    by (simp add: atUTC_def)
  from c [of "atUTC 1543622401"] u have b: "isExpiryTooLong (atUTC 1543622401) ?now"
    by (simp add: atUTC_def)
  from 1 2 n 3 a b show ?thesis by blast
qed

subsection \<open>The evaluators, case by case\<close>

lemma calculateExpiry_cases:
  "calculateExpiry c l = (False, None) \<or> (\<exists>e. calculateExpiry c l = (True, Some e))"
  by (simp add: calculateExpiry_def split: option.splits)

lemma uidExpiryTimes_Inr: "\<exists>ts. uidExpiryTimes c ids = Inr ts"
proof (induction ids)
  case Nil
  show ?case by simp
next
  case (Cons uid ids)
  then obtain ts where ts: "uidExpiryTimes c ids = Inr ts" by blast
  from calculateExpiry_cases [of c "KeyLifetimeSecs (SelfSignature uid)"]
  show ?case
  proof
    assume "calculateExpiry c (KeyLifetimeSecs (SelfSignature uid)) = (False, None)"
    with ts show ?thesis by simp
  next
    assume "\<exists>e. calculateExpiry c (KeyLifetimeSecs (SelfSignature uid)) = (True, Some e)"
    then obtain e where "calculateExpiry c (KeyLifetimeSecs (SelfSignature uid)) = (True, Some e)" ..
    with ts show ?thesis by simp
  qed
qed

lemma getEarliestUidExpiry_cases:
  "getEarliestUidExpiry key = Inr (False, None)
   \<or> (\<exists>e. getEarliestUidExpiry key = Inr (True, Some e))"
proof -
  obtain ts where "uidExpiryTimes (CreationTime (PrimaryKey key)) (Identities key) = Inr ts"
    using uidExpiryTimes_Inr by blast
  then show ?thesis
    by (simp add: getEarliestUidExpiry_def earliest_def)
qed

lemma rotation_tests:
  "isExpired e now = (unix e < unix now)"
  "isOverdueForRotation (calculateNextRotationTime e) now = (unix e - 20 * 86400 < unix now)"
  "isDueForRotation (calculateNextRotationTime e) now = (unix e - 30 * 86400 < unix now)"
  by (simp_all add: isExpired_def isOverdueForRotation_def isDueForRotation_def
      calculateNextRotationTime_def time_Before_def time_Add_def tenDays_def thirtyDays_def)

lemma getDaysSinceExpiry_expired:
  "unix e < unix now \<Longrightarrow> getDaysSinceExpiry e now = Inr (nat ((unix now - unix e) div 86400))"
  by (simp add: getDaysSinceExpiry_def inDays_cases time_Sub_def Let_def)

lemma getDaysUntilExpiry_valid:
  "\<not> unix e < unix now \<Longrightarrow> getDaysUntilExpiry e now = Inr (nat ((unix e - unix now) div 86400))"
  by (simp add: getDaysUntilExpiry_def inDays_cases time_Sub_def Let_def)

lemma getDaysUntilExpiry_overdue:
  "unix e - 20 * 86400 < unix now \<Longrightarrow>
   getDaysUntilExpiry (calculateNextRotationTime e) now = Inl ExpiryHasAlreadyPassed"
  by (simp add: getDaysUntilExpiry_def inDays_negative time_Sub_def Let_def
      calculateNextRotationTime_def time_Add_def thirtyDays_def)

lemma getPrimaryKeyWarnings_expiry:
  assumes "getEarliestUidExpiry key = Inr (True, Some e)"
  shows "getPrimaryKeyWarnings now key =
     Inr ((if unix e < unix now then
             [\<lparr>Type = PrimaryKeyExpired, SubkeyId = 0, DaysUntilExpiry = 0,
               DaysSinceExpiry = nat ((unix now - unix e) div 86400)\<rparr>]
           else if unix e - 20 * 86400 < unix now then
             [\<lparr>Type = PrimaryKeyOverdueForRotation, SubkeyId = 0,
               DaysUntilExpiry = nat ((unix e - unix now) div 86400), DaysSinceExpiry = 0\<rparr>]
           else if unix e - 30 * 86400 < unix now then
             [\<lparr>Type = PrimaryKeyDueForRotation, SubkeyId = 0, DaysUntilExpiry = 0,
               DaysSinceExpiry = 0\<rparr>]
           else [])
          @ (if isExpiryTooLong e now then
               [\<lparr>Type = PrimaryKeyLongExpiry, SubkeyId = 0, DaysUntilExpiry = 0,
                 DaysSinceExpiry = 0\<rparr>]
             else []))"
  unfolding getPrimaryKeyWarnings_def assms
  by (simp add: rotation_tests getDaysSinceExpiry_expired getDaysUntilExpiry_valid Let_def)

lemma getPrimaryKeyWarnings_no_expiry:
  assumes "getEarliestUidExpiry key = Inr (False, None)"
  shows "getPrimaryKeyWarnings now key =
     Inr [\<lparr>Type = PrimaryKeyNoExpiry, SubkeyId = 0, DaysUntilExpiry = 0, DaysSinceExpiry = 0\<rparr>]"
  unfolding getPrimaryKeyWarnings_def assms by simp

lemma getEncryptionSubkeyWarnings_expiry:
  assumes "getMostRecentEncryptionSubkey key = Some sk"
    and "getSubkeyExpiry sk = (True, Some e)"
  shows "getEncryptionSubkeyWarnings now key =
     (if unix e < unix now then
        Inr [\<lparr>Type = NoValidEncryptionSubkey, SubkeyId = 0, DaysUntilExpiry = 0,
              DaysSinceExpiry = 0\<rparr>]
      else if unix e - 20 * 86400 < unix now then Inl ExpiryHasAlreadyPassed
      else
        Inr ((if unix e - 30 * 86400 < unix now then
                [\<lparr>Type = SubkeyDueForRotation, SubkeyId = KeyId (PublicKey sk),
                  DaysUntilExpiry = 0, DaysSinceExpiry = 0\<rparr>]
              else [])
             @ (if isExpiryTooLong e now then
                  [\<lparr>Type = SubkeyLongExpiry, SubkeyId = KeyId (PublicKey sk),
                    DaysUntilExpiry = 0, DaysSinceExpiry = 0\<rparr>]
                else [])))"
proof -
  have x: "unix e < unix now \<Longrightarrow> \<not> isExpiryTooLong e now"
    using expired_not_too_long [of e now] by (simp add: rotation_tests)
  show ?thesis
    unfolding getEncryptionSubkeyWarnings_def
    by (simp add: assms rotation_tests getDaysUntilExpiry_overdue Let_def x)
qed

lemma getEncryptionSubkeyWarnings_no_expiry:
  assumes "getMostRecentEncryptionSubkey key = Some sk"
    and "getSubkeyExpiry sk = (False, None)"
  shows "getEncryptionSubkeyWarnings now key =
     Inr [\<lparr>Type = SubkeyNoExpiry, SubkeyId = KeyId (PublicKey sk), DaysUntilExpiry = 0,
           DaysSinceExpiry = 0\<rparr>]"
  unfolding getEncryptionSubkeyWarnings_def by (simp add: assms)

lemma getEncryptionSubkeyWarnings_none:
  assumes "getMostRecentEncryptionSubkey key = None"
  shows "getEncryptionSubkeyWarnings now key =
     Inr [\<lparr>Type = NoValidEncryptionSubkey, SubkeyId = 0, DaysUntilExpiry = 0,
           DaysSinceExpiry = 0\<rparr>]"
  unfolding getEncryptionSubkeyWarnings_def by (simp add: assms)

subsection \<open>The evaluators on a key with an expiry\<close>

lemmas example_defs = atUTC_def exampleSubkey_def exampleIdentity_def exampleKey_def

text \<open>
  C1 asks for a \<^verbatim>\<open>SubkeyOverdueForRotation\<close> warning, without failure, whenever the
  selected subkey is not expired and its next rotation time plus ten days is before now.
  The code does not deliver it: in that branch it asks \<^verbatim>\<open>getDaysUntilExpiry\<close> for the
  days until the next rotation time, which lies more than ten days in the past, so the
  evaluator panics on every such key.
\<close>

theorem C1_subkey_overdue_panics:
  assumes "getMostRecentEncryptionSubkey key = Some sk"
    and "getSubkeyExpiry sk = (True, Some expiry)"
    and "\<not> unix expiry < unix now"
    and "unix (calculateNextRotationTime expiry) + tenDays < unix now"
  shows "getEncryptionSubkeyWarnings now key = Inl ExpiryHasAlreadyPassed"
proof -
  from assms(4) have "unix expiry - 20 * 86400 < unix now"
    by (simp add: calculateNextRotationTime_def time_Add_def thirtyDays_def tenDays_def)
  with assms(3) show ?thesis
    by (simp add: getEncryptionSubkeyWarnings_expiry [OF assms(1,2)])
qed

theorem C1_subkey_overdue_panics_witness:
  "getMostRecentEncryptionSubkey
       (exampleKey 1530000000 [] [exampleSubkey 1530000000 7 (Some 8640000)])
     = Some (exampleSubkey 1530000000 7 (Some 8640000))
   \<and> getSubkeyExpiry (exampleSubkey 1530000000 7 (Some 8640000))
     = (True, Some (atUTC 1538640000))
   \<and> \<not> unix (atUTC 1538640000) < unix (atUTC 1537776000)
   \<and> unix (calculateNextRotationTime (atUTC 1538640000)) + tenDays < unix (atUTC 1537776000)
   \<and> getEncryptionSubkeyWarnings (atUTC 1537776000)
       (exampleKey 1530000000 [] [exampleSubkey 1530000000 7 (Some 8640000)])
     = Inl ExpiryHasAlreadyPassed"
proof -
  have 1: "getMostRecentEncryptionSubkey
       (exampleKey 1530000000 [] [exampleSubkey 1530000000 7 (Some 8640000)])
     = Some (exampleSubkey 1530000000 7 (Some 8640000))"
    by (simp add: getMostRecentEncryptionSubkey_def example_defs sort_Sort_def)
  have 2: "getSubkeyExpiry (exampleSubkey 1530000000 7 (Some 8640000))
     = (True, Some (atUTC 1538640000))"
    by (simp add: getSubkeyExpiry_def calculateExpiry_def example_defs time_In_def time_Add_def UTC_def)
  have 3: "\<not> unix (atUTC 1538640000) < unix (atUTC 1537776000)"
    by (simp add: atUTC_def)
  have 4: "unix (calculateNextRotationTime (atUTC 1538640000)) + tenDays < unix (atUTC 1537776000)"
    by (simp add: atUTC_def calculateNextRotationTime_def time_Add_def thirtyDays_def tenDays_def)
  from C1_subkey_overdue_panics [OF 1 2 3 4] 1 2 3 4 show ?thesis by blast
qed

text \<open>
  C4. For a key whose identities give an earliest expiry \<open>e\<close>, the primary-key evaluator
  returns at most one rotation-state warning, by the precedence expired, overdue, due,
  followed by the long-expiry warning if the expiry is too long. \<^verbatim>\<open>PrimaryKeyExpired\<close>
  carries the whole days since the expiry, \<^verbatim>\<open>PrimaryKeyOverdueForRotation\<close> the whole
  days until the expiry, \<^verbatim>\<open>PrimaryKeyDueForRotation\<close> no day count, and there is no
  rotation-state warning when now is not after the next rotation time. An expiry exactly
  40 days before now gives \<^verbatim>\<open>PrimaryKeyExpired\<close> with \<^verbatim>\<open>DaysSinceExpiry\<close> 40 and
  nothing else.
\<close>

theorem C4_primary_rotation_state:
  assumes "getEarliestUidExpiry key = Inr (True, Some e)"
  shows "getPrimaryKeyWarnings now key =
     Inr ((if unix e < unix now then
             [\<lparr>Type = PrimaryKeyExpired, SubkeyId = 0, DaysUntilExpiry = 0,
               DaysSinceExpiry = nat ((unix now - unix e) div 86400)\<rparr>]
           else if unix (calculateNextRotationTime e) + tenDays < unix now then
             [\<lparr>Type = PrimaryKeyOverdueForRotation, SubkeyId = 0,
               DaysUntilExpiry = nat ((unix e - unix now) div 86400), DaysSinceExpiry = 0\<rparr>]
           else if unix (calculateNextRotationTime e) < unix now then
             [\<lparr>Type = PrimaryKeyDueForRotation, SubkeyId = 0, DaysUntilExpiry = 0,
               DaysSinceExpiry = 0\<rparr>]
           else [])
          @ (if isExpiryTooLong e now then
               [\<lparr>Type = PrimaryKeyLongExpiry, SubkeyId = 0, DaysUntilExpiry = 0,
                 DaysSinceExpiry = 0\<rparr>]
             else []))
   \<and> (unix now - unix e = 40 * 86400 \<longrightarrow>
        getPrimaryKeyWarnings now key =
          Inr [\<lparr>Type = PrimaryKeyExpired, SubkeyId = 0, DaysUntilExpiry = 0,
                DaysSinceExpiry = 40\<rparr>])"
proof -
  have n: "unix (calculateNextRotationTime e) = unix e - 30 * 86400"
    by (simp add: calculateNextRotationTime_def time_Add_def thirtyDays_def)
  have x: "unix e < unix now \<Longrightarrow> \<not> isExpiryTooLong e now"
    using expired_not_too_long [of e now] by (simp add: rotation_tests)
  have a: "unix now - unix e = 40 * 86400 \<Longrightarrow> (unix now - unix e) div 86400 = 40"
    by simp
  show ?thesis
    unfolding getPrimaryKeyWarnings_expiry [OF assms] n tenDays_def
    using x a by auto
qed

lemma getEarliestUidExpiry_single:
  "l \<noteq> 0 \<Longrightarrow> getEarliestUidExpiry (exampleKey c [Some l] sks)
     = Inr (True, Some (atUTC (c + uint l)))"
  by (simp add: getEarliestUidExpiry_def earliest_def calculateExpiry_def example_defs
      time_In_def time_Add_def UTC_def time_Before_def)

theorem C4_primary_rotation_state_witness:
  "getEarliestUidExpiry (exampleKey 1530000000 [Some 8640000] [])
     = Inr (True, Some (atUTC 1538640000))
   \<and> unix (atUTC 1542096000) - unix (atUTC 1538640000) = 40 * 86400
   \<and> getPrimaryKeyWarnings (atUTC 1542096000) (exampleKey 1530000000 [Some 8640000] [])
     = Inr [\<lparr>Type = PrimaryKeyExpired, SubkeyId = 0, DaysUntilExpiry = 0,
             DaysSinceExpiry = 40\<rparr>]"
proof -
  have 1: "getEarliestUidExpiry (exampleKey 1530000000 [Some 8640000] [])
     = Inr (True, Some (atUTC 1538640000))"
    using getEarliestUidExpiry_single [of 8640000 1530000000 "[]"] by simp
  have 2: "unix (atUTC 1542096000) - unix (atUTC 1538640000) = 40 * 86400"
    by (simp add: atUTC_def)
  from C4_primary_rotation_state [OF 1, of "atUTC 1542096000"] 1 2 show ?thesis by blast
qed

text \<open>
  C6. A key without identities and without subkeys evaluates to
  \<^verbatim>\<open>[PrimaryKeyNoExpiry, NoValidEncryptionSubkey]\<close> at every pair of clock readings. In
  general the primary-key evaluator returns a list, and whenever the subkey evaluator
  returns one too, \<^verbatim>\<open>GetKeyWarnings\<close> returns the first list followed by the second.
\<close>

theorem C6_GetKeyWarnings_order:
  "(Identities key = [] \<and> Subkeys key = [] \<longrightarrow>
      GetKeyWarnings now1 now2 key =
        Inr [\<lparr>Type = PrimaryKeyNoExpiry, SubkeyId = 0, DaysUntilExpiry = 0, DaysSinceExpiry = 0\<rparr>,
             \<lparr>Type = NoValidEncryptionSubkey, SubkeyId = 0, DaysUntilExpiry = 0,
               DaysSinceExpiry = 0\<rparr>])
   \<and> (\<exists>primaryKeyWarnings.
         getPrimaryKeyWarnings now1 key = Inr primaryKeyWarnings
         \<and> (\<forall>subkeyWarnings.
               getEncryptionSubkeyWarnings now2 key = Inr subkeyWarnings \<longrightarrow>
               GetKeyWarnings now1 now2 key = Inr (primaryKeyWarnings @ subkeyWarnings)))"
proof -
  have e: "Identities key = [] \<and> Subkeys key = [] \<longrightarrow>
      GetKeyWarnings now1 now2 key =
        Inr [\<lparr>Type = PrimaryKeyNoExpiry, SubkeyId = 0, DaysUntilExpiry = 0, DaysSinceExpiry = 0\<rparr>,
             \<lparr>Type = NoValidEncryptionSubkey, SubkeyId = 0, DaysUntilExpiry = 0,
               DaysSinceExpiry = 0\<rparr>]"
    by (simp add: GetKeyWarnings_def getPrimaryKeyWarnings_def getEarliestUidExpiry_def
        getEncryptionSubkeyWarnings_def getMostRecentEncryptionSubkey_def)
  obtain p where p: "getPrimaryKeyWarnings now1 key = Inr p"
    using getEarliestUidExpiry_cases [of key] getPrimaryKeyWarnings_no_expiry [of key now1]
      getPrimaryKeyWarnings_expiry [of key _ now1] by metis
  have "\<forall>s. getEncryptionSubkeyWarnings now2 key = Inr s \<longrightarrow>
               GetKeyWarnings now1 now2 key = Inr (p @ s)"
    by (simp add: GetKeyWarnings_def p)
  with e p show ?thesis by blast
qed

theorem C6_GetKeyWarnings_order_witness:
  "GetKeyWarnings (atUTC 1537776000) (atUTC 1537776001) (exampleKey 1530000000 [] []) =
     Inr [\<lparr>Type = PrimaryKeyNoExpiry, SubkeyId = 0, DaysUntilExpiry = 0, DaysSinceExpiry = 0\<rparr>,
          \<lparr>Type = NoValidEncryptionSubkey, SubkeyId = 0, DaysUntilExpiry = 0,
            DaysSinceExpiry = 0\<rparr>]"
  using C6_GetKeyWarnings_order [of "exampleKey 1530000000 [] []" "atUTC 1537776000" "atUTC 1537776001"]
  by (simp add: exampleKey_def)

text \<open>
  C7. When the selected encryption subkey has an expiry strictly before now, the subkey
  evaluator returns exactly one warning, of kind \<^verbatim>\<open>NoValidEncryptionSubkey\<close> and without
  subkey identifier: no overdue or due warning, and the same result as for a key without
  any subkey.
\<close>

theorem C7_expired_subkey:
  assumes "getMostRecentEncryptionSubkey key = Some sk"
    and "getSubkeyExpiry sk = (True, Some expiry)"
    and "unix expiry < unix now"
  shows "getEncryptionSubkeyWarnings now key =
           Inr [\<lparr>Type = NoValidEncryptionSubkey, SubkeyId = 0, DaysUntilExpiry = 0,
                 DaysSinceExpiry = 0\<rparr>]
         \<and> getEncryptionSubkeyWarnings now key =
           getEncryptionSubkeyWarnings now (key\<lparr>Subkeys := []\<rparr>)"
proof -
  have "getMostRecentEncryptionSubkey (key\<lparr>Subkeys := []\<rparr>) = None"
    by (simp add: getMostRecentEncryptionSubkey_def)
  from getEncryptionSubkeyWarnings_none [OF this] assms(3) show ?thesis
    by (simp add: getEncryptionSubkeyWarnings_expiry [OF assms(1,2)])
qed

theorem C7_expired_subkey_witness:
  "getMostRecentEncryptionSubkey
       (exampleKey 1530000000 [] [exampleSubkey 1530000000 7 (Some 8640000)])
     = Some (exampleSubkey 1530000000 7 (Some 8640000))
   \<and> getSubkeyExpiry (exampleSubkey 1530000000 7 (Some 8640000))
     = (True, Some (atUTC 1538640000))
   \<and> unix (atUTC 1538640000) < unix (atUTC 1538640001)
   \<and> getEncryptionSubkeyWarnings (atUTC 1538640001)
       (exampleKey 1530000000 [] [exampleSubkey 1530000000 7 (Some 8640000)])
     = Inr [\<lparr>Type = NoValidEncryptionSubkey, SubkeyId = 0, DaysUntilExpiry = 0,
             DaysSinceExpiry = 0\<rparr>]"
proof -
  have 1: "getMostRecentEncryptionSubkey
       (exampleKey 1530000000 [] [exampleSubkey 1530000000 7 (Some 8640000)])
     = Some (exampleSubkey 1530000000 7 (Some 8640000))"
    by (simp add: getMostRecentEncryptionSubkey_def example_defs sort_Sort_def)
  have 2: "getSubkeyExpiry (exampleSubkey 1530000000 7 (Some 8640000))
     = (True, Some (atUTC 1538640000))"
    by (simp add: getSubkeyExpiry_def calculateExpiry_def example_defs time_In_def time_Add_def UTC_def)
  have 3: "unix (atUTC 1538640000) < unix (atUTC 1538640001)"
    by (simp add: atUTC_def)
  from C7_expired_subkey [OF 1 2 3] 1 2 3 show ?thesis by blast
qed

subsection \<open>Expired excludes too long\<close>

lemma getSubkeyExpiry_cases:
  "getSubkeyExpiry sk = (False, None) \<or> (\<exists>e. getSubkeyExpiry sk = (True, Some e))"
  unfolding getSubkeyExpiry_def by (rule calculateExpiry_cases)

text \<open>
  C10. The too-long ceiling is strictly after now, so an expiry before now is never too
  long. Hence no list that the primary-key evaluator returns holds both
  \<^verbatim>\<open>PrimaryKeyExpired\<close> and \<^verbatim>\<open>PrimaryKeyLongExpiry\<close>, and no list that the subkey
  evaluator returns holds both \<^verbatim>\<open>NoValidEncryptionSubkey\<close> and \<^verbatim>\<open>SubkeyLongExpiry\<close>.
\<close>

theorem C10_expired_excludes_long:
  "unix now < unix (nextExpiryTime now)
   \<and> (isExpired expiry now \<longrightarrow> \<not> isExpiryTooLong expiry now)
   \<and> (\<forall>ws. getPrimaryKeyWarnings now key = Inr ws \<longrightarrow>
         \<not> (PrimaryKeyExpired \<in> Type ` set ws \<and> PrimaryKeyLongExpiry \<in> Type ` set ws))
   \<and> (\<forall>ws. getEncryptionSubkeyWarnings now key = Inr ws \<longrightarrow>
         \<not> (NoValidEncryptionSubkey \<in> Type ` set ws \<and> SubkeyLongExpiry \<in> Type ` set ws))"
proof -
  have x: "\<And>e. unix e < unix now \<Longrightarrow> \<not> isExpiryTooLong e now"
    using expired_not_too_long [of _ now] by (simp add: rotation_tests)
  have p: "\<not> (PrimaryKeyExpired \<in> Type ` set ws \<and> PrimaryKeyLongExpiry \<in> Type ` set ws)"
    if ws: "getPrimaryKeyWarnings now key = Inr ws" for ws
  proof -
    from getEarliestUidExpiry_cases [of key] show ?thesis
    proof
      assume "getEarliestUidExpiry key = Inr (False, None)"
      from getPrimaryKeyWarnings_no_expiry [OF this, of now] ws show ?thesis by auto
    next
      assume "\<exists>e. getEarliestUidExpiry key = Inr (True, Some e)"
      then obtain e where "getEarliestUidExpiry key = Inr (True, Some e)" ..
      from getPrimaryKeyWarnings_expiry [OF this, of now] ws x [of e] show ?thesis
        by (auto split: if_splits)
    qed
  qed
  have s: "\<not> (NoValidEncryptionSubkey \<in> Type ` set ws \<and> SubkeyLongExpiry \<in> Type ` set ws)"
    if ws: "getEncryptionSubkeyWarnings now key = Inr ws" for ws
  proof (cases "getMostRecentEncryptionSubkey key")
    case None
    from getEncryptionSubkeyWarnings_none [OF this, of now] ws show ?thesis by auto
  next
    case (Some sk)
    from getSubkeyExpiry_cases [of sk] show ?thesis
    proof
      assume "getSubkeyExpiry sk = (False, None)"
      from getEncryptionSubkeyWarnings_no_expiry [OF Some this, of now] ws show ?thesis by auto
    next
      assume "\<exists>e. getSubkeyExpiry sk = (True, Some e)"
      then obtain e where "getSubkeyExpiry sk = (True, Some e)" ..
      from getEncryptionSubkeyWarnings_expiry [OF Some this, of now] ws show ?thesis
        by (auto split: if_splits)
    qed
  qed
  from nextExpiryTime_after_now [of now] expired_not_too_long [of expiry now] p s
  show ?thesis by blast
qed

lemma getMostRecentEncryptionSubkey_single:
  "getMostRecentEncryptionSubkey (exampleKey c ls [exampleSubkey sc i l]) = Some (exampleSubkey sc i l)"
  by (simp add: getMostRecentEncryptionSubkey_def example_defs sort_Sort_def)

lemma getSubkeyExpiry_example:
  "l \<noteq> 0 \<Longrightarrow> getSubkeyExpiry (exampleSubkey sc i (Some l)) = (True, Some (atUTC (sc + uint l)))"
  by (simp add: getSubkeyExpiry_def calculateExpiry_def example_defs time_In_def time_Add_def UTC_def)

theorem C10_expired_excludes_long_witness:
  "unix (atUTC 1542096000) < unix (nextExpiryTime (atUTC 1542096000))
   \<and> isExpired (atUTC 1538640000) (atUTC 1542096000)
   \<and> \<not> isExpiryTooLong (atUTC 1538640000) (atUTC 1542096000)
   \<and> getPrimaryKeyWarnings (atUTC 1542096000)
        (exampleKey 1530000000 [Some 8640000] [exampleSubkey 1530000000 7 (Some 8640000)])
      = Inr [\<lparr>Type = PrimaryKeyExpired, SubkeyId = 0, DaysUntilExpiry = 0, DaysSinceExpiry = 40\<rparr>]
   \<and> getEncryptionSubkeyWarnings (atUTC 1542096000)
        (exampleKey 1530000000 [Some 8640000] [exampleSubkey 1530000000 7 (Some 8640000)])
      = Inr [\<lparr>Type = NoValidEncryptionSubkey, SubkeyId = 0, DaysUntilExpiry = 0, DaysSinceExpiry = 0\<rparr>]"
proof -
  let ?now = "atUTC 1542096000"
  let ?e = "atUTC 1538640000"
  let ?key = "exampleKey 1530000000 [Some 8640000] [exampleSubkey 1530000000 7 (Some 8640000)]"
  note c = C10_expired_excludes_long [of ?now ?e ?key]
  have ex: "isExpired ?e ?now" by (simp add: isExpired_def time_Before_def atUTC_def)
  with c have ntl: "\<not> isExpiryTooLong ?e ?now" by blast
  have 1: "getEarliestUidExpiry ?key = Inr (True, Some ?e)"
    using getEarliestUidExpiry_single [of 8640000 1530000000] by simp
  have p: "getPrimaryKeyWarnings ?now ?key
      = Inr [\<lparr>Type = PrimaryKeyExpired, SubkeyId = 0, DaysUntilExpiry = 0, DaysSinceExpiry = 40\<rparr>]"
    using ntl by (simp add: getPrimaryKeyWarnings_expiry [OF 1] atUTC_def)
  have 2: "getSubkeyExpiry (exampleSubkey 1530000000 7 (Some 8640000)) = (True, Some ?e)"
    using getSubkeyExpiry_example [of 8640000 1530000000 7] by simp
  have s: "getEncryptionSubkeyWarnings ?now ?key
      = Inr [\<lparr>Type = NoValidEncryptionSubkey, SubkeyId = 0, DaysUntilExpiry = 0, DaysSinceExpiry = 0\<rparr>]"
    by (simp add: getEncryptionSubkeyWarnings_expiry [OF getMostRecentEncryptionSubkey_single 2] atUTC_def)
  from c ex ntl p s show ?thesis by blast
qed

subsection \<open>The selection of the encryption subkey\<close>

lemma insertLeft_set: "set (insertLeft lt x ps) = insert x (set ps)"
  by (induction ps) auto

lemma insertLeft_length: "length (insertLeft lt x ps) = Suc (length ps)"
  by (induction ps) auto

lemma insertLeft_sorted:
  fixes f :: "'a \<Rightarrow> int"
  assumes "\<And>a b. lt a b = (f b < f a)" and "sorted (map f ps)"
  shows "sorted (map f (insertLeft lt x ps))"
  using assms(2)
proof (induction ps)
  case Nil
  show ?case by simp
next
  case (Cons p ps)
  then have ih: "sorted (map f (insertLeft lt x ps))" by simp
  have l: "lt x p = (f p < f x)" by (rule assms(1))
  show ?case
  proof (cases "f p < f x")
    case True
    with Cons.prems ih show ?thesis
      by (auto simp: l insertLeft_set)
  next
    case False
    with Cons.prems show ?thesis
      by (auto simp: l)
  qed
qed

lemma insertion_pass_set:
  "set (foldl (\<lambda>prefix x. insertLeft lt x prefix) acc xs) = set acc \<union> set xs"
  by (induction xs arbitrary: acc) (auto simp: insertLeft_set)

lemma insertion_pass_length:
  "length (foldl (\<lambda>prefix x. insertLeft lt x prefix) acc xs) = length acc + length xs"
  by (induction xs arbitrary: acc) (auto simp: insertLeft_length)

lemma insertion_pass_sorted:
  fixes f :: "'a \<Rightarrow> int"
  assumes "\<And>a b. lt a b = (f b < f a)" and "sorted (map f acc)"
  shows "sorted (map f (foldl (\<lambda>prefix x. insertLeft lt x prefix) acc xs))"
  using assms(2)
proof (induction xs arbitrary: acc)
  case Nil
  then show ?case by simp
next
  case (Cons x xs)
  from insertLeft_sorted [of lt f acc x, OF assms(1) Cons.prems]
  show ?case by (simp add: Cons.IH)
qed

lemma sort_Sort_set: "set (sort_Sort lt xs) = set xs"
  by (simp add: sort_Sort_def insertion_pass_set)

lemma sort_Sort_length: "length (sort_Sort lt xs) = length xs"
  by (simp add: sort_Sort_def insertion_pass_length)

lemma sort_Sort_first:
  fixes f :: "'a \<Rightarrow> int"
  assumes lt: "\<And>a b. lt a b = (f b < f a)" and ne: "xs \<noteq> []"
  shows "sort_Sort lt xs ! 0 \<in> set xs" and "\<forall>x \<in> set xs. f x \<le> f (sort_Sort lt xs ! 0)"
proof -
  define acc where "acc = foldl (\<lambda>prefix x. insertLeft lt x prefix) [] xs"
  have s: "sorted (map f acc)"
    unfolding acc_def by (rule insertion_pass_sorted [OF lt]) simp
  have st: "set acc = set xs" by (simp add: acc_def insertion_pass_set)
  with ne have nz: "acc \<noteq> []" by auto
  have first: "sort_Sort lt xs ! 0 = last acc"
    using nz by (simp add: sort_Sort_def acc_def [symmetric] rev_nth last_conv_nth)
  from nz st show "sort_Sort lt xs ! 0 \<in> set xs"
    unfolding first using last_in_set by blast
  show "\<forall>x \<in> set xs. f x \<le> f (sort_Sort lt xs ! 0)"
  proof
    fix x assume "x \<in> set xs"
    with st have "x \<in> set acc" by simp
    then obtain i where i: "i < length acc" "acc ! i = x" by (auto simp: in_set_conv_nth)
    have "map f acc ! i \<le> map f acc ! (length acc - 1)"
      using s i(1) nz by (intro sorted_nth_mono) auto
    with i nz show "f x \<le> f (sort_Sort lt xs ! 0)"
      unfolding first by (simp add: last_conv_nth)
  qed
qed

lemma ByCreated_reversed:
  "sort_Reverse ByCreated_Less a b
     = (unix (CreationTime (PublicKey b)) < unix (CreationTime (PublicKey a)))"
  by (simp add: sort_Reverse_def ByCreated_Less_def time_Before_def)

lemma getEncryptionSubkeyWarnings_cong:
  "getMostRecentEncryptionSubkey key = getMostRecentEncryptionSubkey key' \<Longrightarrow>
   getEncryptionSubkeyWarnings now key = getEncryptionSubkeyWarnings now key'"
  by (simp add: getEncryptionSubkeyWarnings_def)

text \<open>
  C9. \<^verbatim>\<open>getMostRecentEncryptionSubkey\<close> returns nil exactly when no subkey has valid
  flags and an encryption flag. Otherwise it returns one of the subkeys that have, and none
  of those was created later. The subkey evaluator then returns what it returns for the key
  with that subkey alone: no other subkey contributes a warning.
\<close>

theorem C9_most_recent_encryption_subkey:
  "(getMostRecentEncryptionSubkey key = None \<longleftrightarrow>
      \<not> (\<exists>s \<in> set (Subkeys key).
            FlagsValid (Sig s) \<and> (FlagEncryptCommunications (Sig s) \<or> FlagEncryptStorage (Sig s))))
   \<and> (\<forall>sk. getMostRecentEncryptionSubkey key = Some sk \<longrightarrow>
         sk \<in> set (Subkeys key)
         \<and> FlagsValid (Sig sk)
         \<and> (FlagEncryptCommunications (Sig sk) \<or> FlagEncryptStorage (Sig sk))
         \<and> (\<forall>s \<in> set (Subkeys key).
               FlagsValid (Sig s) \<and> (FlagEncryptCommunications (Sig s) \<or> FlagEncryptStorage (Sig s))
               \<longrightarrow> unix (CreationTime (PublicKey s)) \<le> unix (CreationTime (PublicKey sk)))
         \<and> getEncryptionSubkeyWarnings now key
             = getEncryptionSubkeyWarnings now (key\<lparr>Subkeys := [sk]\<rparr>))"
proof -
  define ok where "ok = (\<lambda>s :: openpgp_Subkey.
    FlagsValid (Sig s) \<and> (FlagEncryptCommunications (Sig s) \<or> FlagEncryptStorage (Sig s)))"
  define subkeys where "subkeys = filter ok (Subkeys key)"
  have g: "getMostRecentEncryptionSubkey key =
      (if length subkeys = 0 then None
       else Some (sort_Sort (sort_Reverse ByCreated_Less) subkeys ! 0))"
    by (simp add: getMostRecentEncryptionSubkey_def subkeys_def ok_def Let_def)
  have none: "getMostRecentEncryptionSubkey key = None \<longleftrightarrow> \<not> (\<exists>s \<in> set (Subkeys key). ok s)"
    unfolding g by (auto simp: subkeys_def filter_empty_conv)
  have some: "sk \<in> set (Subkeys key) \<and> ok sk
      \<and> (\<forall>s \<in> set (Subkeys key). ok s \<longrightarrow>
            unix (CreationTime (PublicKey s)) \<le> unix (CreationTime (PublicKey sk)))
      \<and> getEncryptionSubkeyWarnings now key
             = getEncryptionSubkeyWarnings now (key\<lparr>Subkeys := [sk]\<rparr>)"
    if sel: "getMostRecentEncryptionSubkey key = Some sk" for sk
  proof -
    from sel have ne: "subkeys \<noteq> []" and sk: "sk = sort_Sort (sort_Reverse ByCreated_Less) subkeys ! 0"
      unfolding g by (auto split: if_splits)
    note f = sort_Sort_first [of "sort_Reverse ByCreated_Less"
        "\<lambda>s. unix (CreationTime (PublicKey s))" subkeys, OF ByCreated_reversed ne, folded sk]
    from f(1) have mem: "sk \<in> set (Subkeys key)" and oksk: "ok sk"
      by (simp_all add: subkeys_def)
    from f(2) have mx: "\<forall>s \<in> set (Subkeys key). ok s \<longrightarrow>
            unix (CreationTime (PublicKey s)) \<le> unix (CreationTime (PublicKey sk))"
      by (simp add: subkeys_def)
    have "getMostRecentEncryptionSubkey (key\<lparr>Subkeys := [sk]\<rparr>) = Some sk"
      using oksk by (simp add: getMostRecentEncryptionSubkey_def ok_def sort_Sort_def)
    with sel have "getEncryptionSubkeyWarnings now key
             = getEncryptionSubkeyWarnings now (key\<lparr>Subkeys := [sk]\<rparr>)"
      by (intro getEncryptionSubkeyWarnings_cong) simp
    with mem oksk mx show ?thesis by blast
  qed
  from none some show ?thesis unfolding ok_def by blast
qed

lemma nextExpiryTime_2018_09_24: "nextExpiryTime (atUTC 1537776000) = atUTC 1540944000"
  by code_simp

theorem C9_most_recent_encryption_subkey_witness:
  "getMostRecentEncryptionSubkey
       (exampleKey 1530000000 []
          [exampleSubkey 1530000100 1 None, exampleSubkey 1530000200 2 None,
           (exampleSubkey 1530000300 3 None)
             \<lparr>Sig := (Sig (exampleSubkey 1530000300 3 None))\<lparr>FlagsValid := False\<rparr>\<rparr>])
     = Some (exampleSubkey 1530000200 2 None)
   \<and> getEncryptionSubkeyWarnings (atUTC 1537776000)
       (exampleKey 1530000000 []
          [exampleSubkey 1530000100 1 None, exampleSubkey 1530000200 2 None,
           (exampleSubkey 1530000300 3 None)
             \<lparr>Sig := (Sig (exampleSubkey 1530000300 3 None))\<lparr>FlagsValid := False\<rparr>\<rparr>])
     = getEncryptionSubkeyWarnings (atUTC 1537776000)
         (exampleKey 1530000000 [] [exampleSubkey 1530000200 2 None])
   \<and> getEncryptionSubkeyWarnings (atUTC 1537776000)
         (exampleKey 1530000000 [] [exampleSubkey 1530000200 2 None])
     = Inr [\<lparr>Type = SubkeyNoExpiry, SubkeyId = 2, DaysUntilExpiry = 0, DaysSinceExpiry = 0\<rparr>]"
proof -
  let ?key = "exampleKey 1530000000 []
          [exampleSubkey 1530000100 1 None, exampleSubkey 1530000200 2 None,
           (exampleSubkey 1530000300 3 None)
             \<lparr>Sig := (Sig (exampleSubkey 1530000300 3 None))\<lparr>FlagsValid := False\<rparr>\<rparr>]"
  have 1: "getMostRecentEncryptionSubkey ?key = Some (exampleSubkey 1530000200 2 None)"
    by (simp add: getMostRecentEncryptionSubkey_def example_defs sort_Sort_def sort_Reverse_def
        ByCreated_Less_def time_Before_def)
  have 2: "?key\<lparr>Subkeys := [exampleSubkey 1530000200 2 None]\<rparr>
      = exampleKey 1530000000 [] [exampleSubkey 1530000200 2 None]"
    by (simp add: exampleKey_def)
  have 3: "getSubkeyExpiry (exampleSubkey 1530000200 2 None) = (False, None)"
    by (simp add: getSubkeyExpiry_def calculateExpiry_def exampleSubkey_def)
  have 4: "KeyId (PublicKey (exampleSubkey 1530000200 2 None)) = 2"
    by (simp add: exampleSubkey_def)
  from C9_most_recent_encryption_subkey [of ?key "atUTC 1537776000"] 1
  have "getEncryptionSubkeyWarnings (atUTC 1537776000) ?key
      = getEncryptionSubkeyWarnings (atUTC 1537776000)
         (?key\<lparr>Subkeys := [exampleSubkey 1530000200 2 None]\<rparr>)"
    by blast
  with 1 2 getEncryptionSubkeyWarnings_no_expiry [OF getMostRecentEncryptionSubkey_single 3,
      of "atUTC 1537776000" 1530000000 "[]", unfolded 4]
  show ?thesis by simp
qed

subsection \<open>The earliest identity expiry\<close>

lemma earliestLoop_member:
  "earliestLoop ts True e \<in> insert e (set ts)"
  by (induction ts arbitrary: e) (auto split: if_splits)

lemma earliestLoop_lower:
  "unix (earliestLoop ts True e) \<le> unix e
   \<and> (\<forall>t \<in> set ts. unix (earliestLoop ts True e) \<le> unix t)"
proof (induction ts arbitrary: e)
  case Nil
  show ?case by simp
next
  case (Cons t ts)
  show ?case
  proof (cases "time_Before t e")
    case True
    with Cons.IH [of t] show ?thesis by (auto simp: time_Before_def)
  next
    case False
    with Cons.IH [of e] show ?thesis by (auto simp: time_Before_def)
  qed
qed

lemma earliest_nonempty:
  assumes "ts \<noteq> []"
  shows "\<exists>m. earliest ts = Inr m \<and> m \<in> set ts \<and> (\<forall>t \<in> set ts. unix m \<le> unix t)"
proof -
  from assms obtain t ts' where ts: "ts = t # ts'" by (cases ts) auto
  have e: "earliest ts = Inr (earliestLoop ts' True t)"
    by (simp add: earliest_def ts)
  from earliestLoop_member [of ts' t] earliestLoop_lower [of ts' t] e show ?thesis
    by (auto simp: ts)
qed

lemma uidExpiryTimes_set:
  assumes "uidExpiryTimes c ids = Inr ts"
  shows "set ts = {e. \<exists>uid \<in> set ids.
            calculateExpiry c (KeyLifetimeSecs (SelfSignature uid)) = (True, Some e)}"
  using assms
proof (induction ids arbitrary: ts)
  case Nil
  then show ?case by simp
next
  case (Cons uid ids)
  obtain rest where rest: "uidExpiryTimes c ids = Inr rest"
    using uidExpiryTimes_Inr by blast
  note ih = Cons.IH [OF rest]
  from calculateExpiry_cases [of c "KeyLifetimeSecs (SelfSignature uid)"]
  show ?case
  proof
    assume n: "calculateExpiry c (KeyLifetimeSecs (SelfSignature uid)) = (False, None)"
    with Cons.prems rest have "ts = rest" by simp
    with ih n show ?thesis by auto
  next
    assume "\<exists>e. calculateExpiry c (KeyLifetimeSecs (SelfSignature uid)) = (True, Some e)"
    then obtain e where e: "calculateExpiry c (KeyLifetimeSecs (SelfSignature uid)) = (True, Some e)" ..
    with Cons.prems rest have "ts = e # rest" by simp
    with ih e show ?thesis by auto
  qed
qed

lemma getPrimaryKeyWarnings_cong:
  "getEarliestUidExpiry key = getEarliestUidExpiry key' \<Longrightarrow>
   getPrimaryKeyWarnings now key = getPrimaryKeyWarnings now key'"
  by (simp add: getPrimaryKeyWarnings_def)

lemma getEarliestUidExpiry_only:
  assumes "calculateExpiry (CreationTime (PrimaryKey key)) (KeyLifetimeSecs (SelfSignature uid))
             = (True, Some m)"
  shows "getEarliestUidExpiry (key\<lparr>Identities := [uid]\<rparr>) = Inr (True, Some m)"
  by (simp add: getEarliestUidExpiry_def assms earliest_def)

text \<open>
  C5. When some identity resolves to an expiry, \<^verbatim>\<open>getEarliestUidExpiry\<close> returns the
  resolved expiry of one of the identities, and no identity resolves to an earlier one. The
  primary-key evaluator then returns, at every time, what it returns for the key with that
  identity alone: the later expiries have no part in the warnings.
\<close>

theorem C5_earliest_identity_expiry:
  assumes "uid0 \<in> set (Identities key)"
    and "calculateExpiry (CreationTime (PrimaryKey key)) (KeyLifetimeSecs (SelfSignature uid0))
           = (True, Some e0)"
  shows "\<exists>m uid.
           uid \<in> set (Identities key)
           \<and> calculateExpiry (CreationTime (PrimaryKey key)) (KeyLifetimeSecs (SelfSignature uid))
               = (True, Some m)
           \<and> getEarliestUidExpiry key = Inr (True, Some m)
           \<and> (\<forall>u \<in> set (Identities key). \<forall>e.
                 calculateExpiry (CreationTime (PrimaryKey key)) (KeyLifetimeSecs (SelfSignature u))
                   = (True, Some e)
                 \<longrightarrow> unix m \<le> unix e)
           \<and> (\<forall>now. getPrimaryKeyWarnings now key
                       = getPrimaryKeyWarnings now (key\<lparr>Identities := [uid]\<rparr>))"
proof -
  let ?c = "CreationTime (PrimaryKey key)"
  obtain ts where ts: "uidExpiryTimes ?c (Identities key) = Inr ts"
    using uidExpiryTimes_Inr by blast
  note st = uidExpiryTimes_set [OF ts]
  from assms st have "e0 \<in> set ts" by blast
  then have ne: "ts \<noteq> []" by auto
  from earliest_nonempty [OF ne] obtain m where
    m: "earliest ts = Inr m" "m \<in> set ts" "\<forall>t \<in> set ts. unix m \<le> unix t" by blast
  from m(2) st obtain uid where
    uid: "uid \<in> set (Identities key)"
      "calculateExpiry ?c (KeyLifetimeSecs (SelfSignature uid)) = (True, Some m)" by blast
  have g: "getEarliestUidExpiry key = Inr (True, Some m)"
    using ne by (simp add: getEarliestUidExpiry_def ts m(1))
  have mn: "\<forall>u \<in> set (Identities key). \<forall>e.
      calculateExpiry ?c (KeyLifetimeSecs (SelfSignature u)) = (True, Some e) \<longrightarrow> unix m \<le> unix e"
    using m(3) st by blast
  have w: "\<forall>now. getPrimaryKeyWarnings now key
                       = getPrimaryKeyWarnings now (key\<lparr>Identities := [uid]\<rparr>)"
    using getEarliestUidExpiry_only [OF uid(2)] g
    by (intro allI getPrimaryKeyWarnings_cong) simp
  from uid g mn w show ?thesis by blast
qed

theorem C5_earliest_identity_expiry_witness:
  "exampleIdentity (Some 16416000)
       \<in> set (Identities (exampleKey 1530000000 [Some 16416000, Some 8208000] []))
   \<and> calculateExpiry
         (CreationTime (PrimaryKey (exampleKey 1530000000 [Some 16416000, Some 8208000] [])))
         (KeyLifetimeSecs (SelfSignature (exampleIdentity (Some 16416000))))
       = (True, Some (atUTC 1546416000))
   \<and> getEarliestUidExpiry (exampleKey 1530000000 [Some 16416000, Some 8208000] [])
       = Inr (True, Some (atUTC 1538208000))
   \<and> getPrimaryKeyWarnings (atUTC 1537776000)
         (exampleKey 1530000000 [Some 16416000, Some 8208000] [])
       = getPrimaryKeyWarnings (atUTC 1537776000) (exampleKey 1530000000 [Some 8208000] [])
   \<and> getPrimaryKeyWarnings (atUTC 1537776000)
         (exampleKey 1530000000 [Some 16416000, Some 8208000] [])
       = Inr [\<lparr>Type = PrimaryKeyOverdueForRotation, SubkeyId = 0, DaysUntilExpiry = 5,
               DaysSinceExpiry = 0\<rparr>]"
proof -
  let ?key = "exampleKey 1530000000 [Some 16416000, Some 8208000] []"
  let ?now = "atUTC 1537776000"
  have 1: "exampleIdentity (Some 16416000) \<in> set (Identities ?key)"
    by (simp add: exampleKey_def)
  have 2: "calculateExpiry (CreationTime (PrimaryKey ?key))
         (KeyLifetimeSecs (SelfSignature (exampleIdentity (Some 16416000))))
       = (True, Some (atUTC 1546416000))"
    by (simp add: calculateExpiry_def example_defs time_In_def time_Add_def UTC_def)
  have g: "getEarliestUidExpiry ?key = Inr (True, Some (atUTC 1538208000))"
    by (simp add: getEarliestUidExpiry_def earliest_def calculateExpiry_def example_defs
        time_In_def time_Add_def UTC_def time_Before_def)
  from C5_earliest_identity_expiry [OF 1 2] obtain m uid where
    u: "uid \<in> set (Identities ?key)"
      "calculateExpiry (CreationTime (PrimaryKey ?key)) (KeyLifetimeSecs (SelfSignature uid))
         = (True, Some m)"
      "getEarliestUidExpiry ?key = Inr (True, Some m)"
      "\<forall>now. getPrimaryKeyWarnings now ?key
          = getPrimaryKeyWarnings now (?key\<lparr>Identities := [uid]\<rparr>)"
    by blast
  from u(3) g have m: "m = atUTC 1538208000" by simp
  from u(1) have "uid = exampleIdentity (Some 16416000) \<or> uid = exampleIdentity (Some 8208000)"
    by (simp add: exampleKey_def)
  with u(2) 2 m have uid: "uid = exampleIdentity (Some 8208000)"
    by (auto simp: atUTC_def)
  have k: "?key\<lparr>Identities := [uid]\<rparr> = exampleKey 1530000000 [Some 8208000] []"
    by (simp add: uid exampleKey_def)
  from u(4) k have eq: "getPrimaryKeyWarnings ?now ?key
       = getPrimaryKeyWarnings ?now (exampleKey 1530000000 [Some 8208000] [])"
    by simp
  have "unix (nextExpiryTime ?now) = 1540944000"
    by (simp add: nextExpiryTime_2018_09_24) (simp add: atUTC_def)
  then have ntl: "\<not> isExpiryTooLong (atUTC 1538208000) ?now"
    by (simp add: isExpiryTooLong_def time_After_def) (simp add: atUTC_def)
  have v: "getPrimaryKeyWarnings ?now ?key
       = Inr [\<lparr>Type = PrimaryKeyOverdueForRotation, SubkeyId = 0, DaysUntilExpiry = 5,
               DaysSinceExpiry = 0\<rparr>]"
    using ntl by (simp add: getPrimaryKeyWarnings_expiry [OF g] atUTC_def)
  from 1 2 g eq v show ?thesis by blast
qed

end
